theory Spec2Isabelle
  imports Complex_Main "HOL-Library.AList" "HOL-Library.Word"
begin

section \<open>Configuration (app.py, lines 11-16)\<close>

type_synonym byte = "8 word"

definition STORAGE_PATHS :: "string list" where
  "STORAGE_PATHS = [''/storage'', ''/storage2'', ''/storage3'']"

definition MAX_FILE_SIZE :: nat where
  "MAX_FILE_SIZE = 5 * 1024 * 1024 * 1024"

definition DEFAULT_EXPIRY :: int where
  "DEFAULT_EXPIRY = 24 * 60 * 60"

definition CHUNK_SIZE :: nat where
  "CHUNK_SIZE = 8192"

section \<open>Time\<close>

text \<open>
  A \<^verbatim>\<open>datetime\<close> is the number of microseconds since 0001-01-01T00:00:00, the resolution
  of Python's type. The database stores \<^verbatim>\<open>isoformat()\<close> strings: the year is padded to four
  digits and the fraction is either absent (zero microseconds) or six digits long, so the
  order of the strings (line 70) and the order of the parsed values (line 178) are both the
  order of the instants, and the model keeps the instant. A datetime outside
  \<^verbatim>\<open>datetime.min .. datetime.max\<close> does not exist: the addition raises OverflowError.
\<close>

type_synonym datetime = int

definition DATETIME_MAX :: int where
  "DATETIME_MAX = 3652059 * 86400 * 1000000"

definition add_seconds :: "datetime \<Rightarrow> int \<Rightarrow> datetime option" where
  "add_seconds t n =
     (if 0 \<le> t + n * 1000000 \<and> t + n * 1000000 < DATETIME_MAX
      then Some (t + n * 1000000) else None)"

text \<open>
  \<^verbatim>\<open>timedelta.total_seconds()\<close> divides the number of microseconds by \<^verbatim>\<open>10**6\<close> with
  Python's true division of integers, whose result is a float: the IEEE 754 double nearest
  to the quotient, ties going to the even mantissa. A float is modelled by the rational
  number it denotes. For \<open>p, q > 0\<close>, \<open>binade p q\<close> is the integer \<open>b\<close> with
  \<open>2^b \<le> p/q < 2^(b+1)\<close>, found from the bit lengths of \<open>p\<close> and \<open>q\<close>; the double
  nearest to \<open>p/q\<close> is \<open>m * 2^(b-52)\<close>, where the mantissa \<open>m\<close> is \<open>p/q / 2^(b-52)\<close>
  rounded to an integer. A difference of two datetimes is at least a microsecond and less
  than 10000 years, far from the subnormal numbers and from overflow, which are left out.
\<close>

fun bit_length :: "nat \<Rightarrow> nat" where
  "bit_length n = (if n = 0 then 0 else Suc (bit_length (n div 2)))"

declare bit_length.simps [simp del]

definition round_half_even :: "nat \<Rightarrow> nat \<Rightarrow> nat" where
  "round_half_even p q =
     (if 2 * (p mod q) < q then p div q
      else if q < 2 * (p mod q) then p div q + 1
      else if even (p div q) then p div q
      else p div q + 1)"

definition binade :: "nat \<Rightarrow> nat \<Rightarrow> int" where
  "binade p q =
     (if bit_length q \<le> bit_length p
      then (if q * 2 ^ (bit_length p - bit_length q) \<le> p
            then int (bit_length p - bit_length q)
            else int (bit_length p - bit_length q) - 1)
      else (if q \<le> p * 2 ^ (bit_length q - bit_length p)
            then - int (bit_length q - bit_length p)
            else - int (bit_length q - bit_length p) - 1))"

definition nearest_double :: "nat \<Rightarrow> nat \<Rightarrow> rat" where
  "nearest_double p q =
     (if 52 \<le> binade p q
      then of_nat (round_half_even p (q * 2 ^ nat (binade p q - 52))) * 2 ^ nat (binade p q - 52)
      else of_nat (round_half_even (p * 2 ^ nat (52 - binade p q)) q) / 2 ^ nat (52 - binade p q))"

definition total_seconds :: "int \<Rightarrow> rat" where
  "total_seconds d =
     (if d = 0 then 0
      else if 0 < d then nearest_double (nat d) 1000000
      else - nearest_double (nat (- d)) 1000000)"

section \<open>Errors\<close>

text \<open>
  The HTTPExceptions of the handlers, and the exceptions that no handler catches:
  \<^item> \<open>NotFound\<close>: 404, "File not found";
  \<^item> \<open>NotFoundInStorage\<close>: 404, "File not found in storage";
  \<^item> \<open>Expired\<close>: 410, "File has expired";
  \<^item> \<open>TooLarge\<close>: 413;
  \<^item> \<open>StorageError\<close>: 500, "Storage error: ...", raised by the \<^verbatim>\<open>except IOError\<close> handler;
  \<^item> \<open>OverflowError\<close>: raised by the datetime arithmetic of line 121;
  \<^item> \<open>ValueError\<close>: raised by \<^verbatim>\<open>min\<close> on an empty sequence (line 88).
\<close>

datatype error = NotFound | NotFoundInStorage | Expired | TooLarge | StorageError
  | OverflowError | ValueError

fun status_code :: "error \<Rightarrow> nat" where
  "status_code NotFound = 404"
| "status_code NotFoundInStorage = 404"
| "status_code Expired = 410"
| "status_code TooLarge = 413"
| "status_code StorageError = 500"
| "status_code OverflowError = 500"
| "status_code ValueError = 500"

section \<open>FileDatabase (lines 18-74)\<close>

text \<open>
  The JSON document \<^verbatim>\<open>{"files": {...}, "stats": {...}}\<close>. A Python dict keeps insertion
  order, and \<^verbatim>\<open>get_expired_files\<close> iterates over it, so both dicts are association lists:
  \<open>AList.update\<close> is \<^verbatim>\<open>d[k] = v\<close>, \<open>AList.delete\<close> is \<^verbatim>\<open>del d[k]\<close>, \<open>map_of\<close> is
  \<^verbatim>\<open>d.get(k)\<close>. Every operation reads the whole file and writes it back; the model passes
  the document along.
\<close>

record file_data =
  file_id :: string
  original_name :: "string option"
  file_size :: nat
  content_type :: "string option"
  storage_path :: string
  expires_at :: datetime
  uploaded_at :: datetime

record database =
  files :: "(string \<times> file_data) list"
  stats :: "(string \<times> int) list"

definition empty_db :: database where
  "empty_db = \<lparr>files = [], stats = []\<rparr>"

definition dict_get :: "(string \<times> int) list \<Rightarrow> string \<Rightarrow> int \<Rightarrow> int" where
  "dict_get d k dflt = (case map_of d k of None \<Rightarrow> dflt | Some v \<Rightarrow> v)"

definition add_file :: "database \<Rightarrow> string \<Rightarrow> file_data \<Rightarrow> database" where
  "add_file d fid data =
     \<lparr>files = AList.update fid data (files d),
      stats = AList.update (storage_path data)
                (dict_get (stats d) (storage_path data) 0 + 1) (stats d)\<rparr>"

definition get_file :: "database \<Rightarrow> string \<Rightarrow> file_data option" where
  "get_file d fid = map_of (files d) fid"

definition db_delete_file :: "database \<Rightarrow> string \<Rightarrow> bool \<times> database" where
  "db_delete_file d fid =
     (case map_of (files d) fid of
        None \<Rightarrow> (False, d)
      | Some data \<Rightarrow>
          (True,
           \<lparr>files = AList.delete fid (files d),
            stats =
              (case map_of (stats d) (storage_path data) of
                 None \<Rightarrow> stats d
               | Some c \<Rightarrow>
                   if c - 1 \<le> 0 then AList.delete (storage_path data) (stats d)
                   else AList.update (storage_path data) (c - 1) (stats d))\<rparr>))"

text \<open>The test of the comprehension of line 70, on one item of \<^verbatim>\<open>db["files"].items()\<close>.\<close>

definition is_expired :: "datetime \<Rightarrow> string \<times> file_data \<Rightarrow> bool" where
  "is_expired now e = (expires_at (snd e) < now)"

definition get_expired_files :: "database \<Rightarrow> datetime \<Rightarrow> string list" where
  "get_expired_files d now = map fst (filter (is_expired now) (files d))"

definition get_storage_stats :: "database \<Rightarrow> (string \<times> int) list" where
  "get_storage_stats d = stats d"

section \<open>The volumes\<close>

text \<open>
  The storage directories hold one file per path. \<^verbatim>\<open>os.remove\<close> raises FileNotFoundError
  when the path is absent, and may raise another OSError (a permission error, a read-only
  volume) for a path that is there: the set \<open>undeletable\<close> names the paths where it does.
\<close>

type_synonym disk = "(string \<times> byte list) list"

datatype os_error = FileNotFoundError | PermissionError

definition os_path_join :: "string \<Rightarrow> string \<Rightarrow> string" where
  "os_path_join a b =
     (if b \<noteq> [] \<and> hd b = CHR ''/'' then b
      else if a = [] \<or> last a = CHR ''/'' then a @ b
      else a @ ''/'' @ b)"

definition os_path_exists :: "disk \<Rightarrow> string \<Rightarrow> bool" where
  "os_path_exists dk p = (map_of dk p \<noteq> None)"

definition os_remove :: "string set \<Rightarrow> disk \<Rightarrow> string \<Rightarrow> os_error + disk" where
  "os_remove undeletable dk p =
     (if map_of dk p = None then Inl FileNotFoundError
      else if p \<in> undeletable then Inl PermissionError
      else Inr (AList.delete p dk))"

text \<open>\<^verbatim>\<open>try: os.remove(file_path)  except OSError: pass\<close> (lines 97-100 and 231-234).\<close>

definition remove_ignoring_errors :: "string set \<Rightarrow> disk \<Rightarrow> string \<Rightarrow> disk" where
  "remove_ignoring_errors undeletable dk p =
     (case os_remove undeletable dk p of Inl e \<Rightarrow> dk | Inr dk' \<Rightarrow> dk')"

record system =
  db :: database
  disk :: disk

section \<open>Placement (lines 84-88)\<close>

text \<open>
  \<^verbatim>\<open>min(iterable, key=...)\<close> keeps the first element whose key is smallest: a later element
  replaces the candidate only when its key is strictly smaller. On an empty iterable it
  raises ValueError.
\<close>

fun min_from :: "('a \<Rightarrow> int) \<Rightarrow> 'a \<Rightarrow> 'a list \<Rightarrow> 'a" where
  "min_from key best [] = best"
| "min_from key best (x # xs) = min_from key (if key x < key best then x else best) xs"

definition py_min :: "('a \<Rightarrow> int) \<Rightarrow> 'a list \<Rightarrow> error + 'a" where
  "py_min key xs = (case xs of [] \<Rightarrow> Inl ValueError | x # rest \<Rightarrow> Inr (min_from key x rest))"

definition counts :: "(string \<times> int) list \<Rightarrow> (string \<times> int) list" where
  "counts st = map (\<lambda>path. (path, dict_get st path 0)) STORAGE_PATHS"

definition select_storage_path :: "database \<Rightarrow> error + string" where
  "select_storage_path d =
     (case py_min snd (counts (get_storage_stats d)) of
        Inl e \<Rightarrow> Inl e
      | Inr c \<Rightarrow> Inr (fst c))"

section \<open>The reaper (lines 90-101)\<close>

text \<open>
  \<open>reclaim\<close> is the body of the loop (lines 94-101) for one handle of the list that
  \<^verbatim>\<open>get_expired_files\<close> returned: the record is read again, and when it is still there
  the file is removed, errors ignored, and then the record.
\<close>

definition reclaim :: "string set \<Rightarrow> system \<Rightarrow> string \<Rightarrow> system" where
  "reclaim undeletable s fid =
     (case get_file (db s) fid of
        None \<Rightarrow> s
      | Some data \<Rightarrow>
          \<lparr>db = snd (db_delete_file (db s) fid),
           disk = remove_ignoring_errors undeletable (disk s)
                    (os_path_join (storage_path data) fid)\<rparr>)"

fun cleanup_loop :: "string set \<Rightarrow> string list \<Rightarrow> system \<Rightarrow> system" where
  "cleanup_loop undeletable [] s = s"
| "cleanup_loop undeletable (fid # fids) s =
     cleanup_loop undeletable fids (reclaim undeletable s fid)"

definition cleanup_expired_files :: "system \<Rightarrow> datetime \<Rightarrow> string set \<Rightarrow> system" where
  "cleanup_expired_files s now undeletable =
     cleanup_loop undeletable (get_expired_files (db s) now) s"

section \<open>Create (lines 108-166)\<close>

text \<open>
  What one call of the handler receives: the parsed upload (\<^verbatim>\<open>file.size\<close> may be None),
  and what its environment answers while it runs: the value of \<^verbatim>\<open>uuid.uuid4()\<close>, the two
  readings of the clock (line 121 before the bytes are streamed, line 150 after), whether
  \<^verbatim>\<open>open\<close> raises, which \<^verbatim>\<open>f.write\<close> raises (counted from 0) if any, and where
  \<^verbatim>\<open>os.remove\<close> raises. IOError is OSError in Python 3, so the handler of line 136 catches
  all three. A write appends its whole chunk or raises and leaves the file as it was.
\<close>

record UploadFile =
  upload_size :: "nat option"
  filename :: "string option"
  upload_content_type :: "string option"
  content :: "byte list"

record upload_env =
  uuid4 :: string
  utcnow_before :: datetime
  utcnow_after :: datetime
  open_fails :: bool
  write_fails_at :: "nat option"
  remove_fails :: "string set"

record upload_response =
  resp_id :: string
  url :: string
  download_url :: string
  info_url :: string
  resp_expires_at :: datetime
  resp_size :: nat
  max_size :: nat
  storage_location :: string

datatype save_result = Saved nat "byte list" | Oversize "byte list" | WriteFailed "byte list"

text \<open>
  The loop of lines 127-135: \<open>k\<close> counts the chunks, \<open>fsize\<close> is \<^verbatim>\<open>file_size\<close>, \<open>written\<close>
  is what the file holds, \<open>rest\<close> is what \<^verbatim>\<open>file.read\<close> has not returned yet.
\<close>

function save_chunks ::
  "nat option \<Rightarrow> nat \<Rightarrow> nat \<Rightarrow> byte list \<Rightarrow> byte list \<Rightarrow> save_result" where
  "save_chunks failing k fsize written rest =
     (if take CHUNK_SIZE rest = [] then Saved fsize written
      else if fsize + length (take CHUNK_SIZE rest) > MAX_FILE_SIZE then Oversize written
      else if failing = Some k then WriteFailed written
      else save_chunks failing (Suc k) (fsize + length (take CHUNK_SIZE rest))
             (written @ take CHUNK_SIZE rest) (drop CHUNK_SIZE rest))"
  by pat_completeness auto
termination
  by (relation "measure (\<lambda>(failing, k, fsize, written, rest). length rest)")
     (auto simp: CHUNK_SIZE_def)

declare save_chunks.simps [simp del]

definition declared_too_large :: "UploadFile \<Rightarrow> bool" where
  "declared_too_large file =
     (case upload_size file of None \<Rightarrow> False | Some n \<Rightarrow> n \<noteq> 0 \<and> n > MAX_FILE_SIZE)"

definition upload_file ::
  "system \<Rightarrow> UploadFile \<Rightarrow> int \<Rightarrow> upload_env \<Rightarrow> (error + upload_response) \<times> system" where
  "upload_file s file expires_in env =
     (if declared_too_large file then (Inl TooLarge, s)
      else case select_storage_path (db s) of
        Inl e \<Rightarrow> (Inl e, s)
      | Inr spath \<Rightarrow>
         (case add_seconds (utcnow_before env) expires_in of
            None \<Rightarrow> (Inl OverflowError, s)
          | Some expiry \<Rightarrow>
             if open_fails env then (Inl StorageError, s)
             else
               (case save_chunks (write_fails_at env) 0 0 [] (content file) of
                  Oversize written \<Rightarrow>
                    (case os_remove (remove_fails env)
                            (AList.update (os_path_join spath (uuid4 env)) written (disk s))
                            (os_path_join spath (uuid4 env)) of
                       Inl e \<Rightarrow>
                         (Inl StorageError,
                          s\<lparr>disk := AList.update (os_path_join spath (uuid4 env)) written
                                      (disk s)\<rparr>)
                     | Inr dk \<Rightarrow> (Inl TooLarge, s\<lparr>disk := dk\<rparr>))
                | WriteFailed written \<Rightarrow>
                    (Inl StorageError,
                     s\<lparr>disk := AList.update (os_path_join spath (uuid4 env)) written (disk s)\<rparr>)
                | Saved fsize written \<Rightarrow>
                    (Inr \<lparr>resp_id = uuid4 env,
                          url = ''/api/files/'' @ uuid4 env,
                          download_url = ''/api/files/'' @ uuid4 env @ ''/download'',
                          info_url = ''/api/files/'' @ uuid4 env @ ''/info'',
                          resp_expires_at = expiry,
                          resp_size = fsize,
                          max_size = MAX_FILE_SIZE,
                          storage_location = spath\<rparr>,
                     \<lparr>db = add_file (db s) (uuid4 env)
                             \<lparr>file_id = uuid4 env,
                              original_name = filename file,
                              file_size = fsize,
                              content_type = upload_content_type file,
                              storage_path = spath,
                              expires_at = expiry,
                              uploaded_at = utcnow_after env\<rparr>,
                      disk = AList.update (os_path_join spath (uuid4 env)) written
                               (disk s)\<rparr>))))"

section \<open>Download (lines 168-195)\<close>

record file_response =
  path :: string
  resp_filename :: "string option"
  media_type :: "string option"
  resp_body :: "byte list"

definition download_file :: "system \<Rightarrow> string \<Rightarrow> datetime \<Rightarrow> error + file_response" where
  "download_file s fid now =
     (case get_file (db s) fid of
        None \<Rightarrow> Inl NotFound
      | Some data \<Rightarrow>
          if expires_at data < now then Inl Expired
          else
            (case map_of (disk s) (os_path_join (storage_path data) fid) of
               None \<Rightarrow> Inl NotFoundInStorage
             | Some bytes \<Rightarrow>
                 Inr \<lparr>path = os_path_join (storage_path data) fid,
                      resp_filename = original_name data,
                      media_type = content_type data,
                      resp_body = bytes\<rparr>))"

section \<open>Inspect (lines 197-219)\<close>

record file_info =
  info_id :: string
  info_original_name :: "string option"
  info_size :: nat
  info_content_type :: "string option"
  info_storage_location :: string
  info_uploaded_at :: datetime
  info_expires_at :: datetime
  remaining_seconds :: rat
  expired :: bool

definition get_file_info :: "system \<Rightarrow> string \<Rightarrow> datetime \<Rightarrow> error + file_info" where
  "get_file_info s fid now =
     (case get_file (db s) fid of
        None \<Rightarrow> Inl NotFound
      | Some data \<Rightarrow>
          Inr \<lparr>info_id = fid,
               info_original_name = original_name data,
               info_size = file_size data,
               info_content_type = content_type data,
               info_storage_location = storage_path data,
               info_uploaded_at = uploaded_at data,
               info_expires_at = expires_at data,
               remaining_seconds = max 0 (total_seconds (expires_at data - now)),
               expired = (total_seconds (expires_at data - now) \<le> 0)\<rparr>)"

section \<open>Delete (lines 221-237)\<close>

datatype delete_response = Deleted string

definition delete_file ::
  "system \<Rightarrow> string \<Rightarrow> string set \<Rightarrow> (error + delete_response) \<times> system" where
  "delete_file s fid undeletable =
     (case get_file (db s) fid of
        None \<Rightarrow> (Inl NotFound, s)
      | Some data \<Rightarrow>
          (Inr (Deleted fid),
           \<lparr>db = snd (db_delete_file (db s) fid),
            disk = remove_ignoring_errors undeletable (disk s)
                     (os_path_join (storage_path data) fid)\<rparr>))"

section \<open>Sequences of operations\<close>

text \<open>
  The service runs one request or one reaper pass after the other; each carries what its
  environment answers while it runs.
\<close>

datatype operation =
    Create UploadFile int upload_env
  | Delete string "string set"
  | Reap datetime "string set"

fun apply_operation :: "system \<Rightarrow> operation \<Rightarrow> system" where
  "apply_operation s (Create file expires_in env) = snd (upload_file s file expires_in env)"
| "apply_operation s (Delete fid undeletable) = snd (delete_file s fid undeletable)"
| "apply_operation s (Reap now undeletable) = cleanup_expired_files s now undeletable"

fun run :: "system \<Rightarrow> operation list \<Rightarrow> system" where
  "run s [] = s"
| "run s (x # xs) = run (apply_operation s x) xs"

text \<open>
  \<^verbatim>\<open>uuid.uuid4()\<close> is taken to return a handle that no stored record has: \<open>fresh_handles\<close>
  says so of every create of a sequence, at the moment it runs.
\<close>

fun fresh_handle :: "system \<Rightarrow> operation \<Rightarrow> bool" where
  "fresh_handle s (Create file expires_in env) = (get_file (db s) (uuid4 env) = None)"
| "fresh_handle s (Delete fid undeletable) = True"
| "fresh_handle s (Reap now undeletable) = True"

fun fresh_handles :: "system \<Rightarrow> operation list \<Rightarrow> bool" where
  "fresh_handles s [] = True"
| "fresh_handles s (x # xs) = (fresh_handle s x \<and> fresh_handles (apply_operation s x) xs)"

section \<open>The counters and the records\<close>

text \<open>
  \<open>live_count d v\<close> is the number of records of the database whose volume is \<open>v\<close>.
  \<open>counters_consistent\<close> says that no handle has two records and that every counter is
  that number, an absent counter standing for zero; it is checked on the volumes that a
  counter or a record names, which is enough (\<open>counters_consistent_iff\<close>).
\<close>

definition live_count :: "database \<Rightarrow> string \<Rightarrow> nat" where
  "live_count d v = length (filter (\<lambda>e. storage_path (snd e) = v) (files d))"

definition counters_consistent :: "database \<Rightarrow> bool" where
  "counters_consistent d =
     (distinct (map fst (files d)) \<and>
      list_all (\<lambda>v. dict_get (stats d) v 0 = int (live_count d v))
        (map fst (stats d) @ map (\<lambda>e. storage_path (snd e)) (files d)))"

section \<open>Example states\<close>

text \<open>Concrete states and inputs on which the theorems below are instantiated.\<close>

definition stored_record :: file_data where
  "stored_record =
     \<lparr>file_id = ''a'', original_name = Some ''n.txt'', file_size = 3, content_type = None,
      storage_path = ''/storage'', expires_at = 1000, uploaded_at = 10\<rparr>"

definition one_file :: system where
  "one_file =
     \<lparr>db = \<lparr>files = [(''a'', stored_record)], stats = [(''/storage'', 1)]\<rparr>,
      disk = [(''/storage/a'', [1, 2, 3])]\<rparr>"

definition bytes_lost :: system where
  "bytes_lost =
     \<lparr>db = \<lparr>files = [(''a'', stored_record)], stats = [(''/storage'', 1)]\<rparr>, disk = []\<rparr>"

definition no_files :: system where
  "no_files = \<lparr>db = empty_db, disk = []\<rparr>"

definition other_record :: file_data where
  "other_record =
     \<lparr>file_id = ''b'', original_name = None, file_size = 1, content_type = Some ''text/plain'',
      storage_path = ''/storage2'', expires_at = 5000, uploaded_at = 20\<rparr>"

definition two_files :: system where
  "two_files =
     \<lparr>db = \<lparr>files = [(''a'', stored_record), (''b'', other_record)],
            stats = [(''/storage'', 1), (''/storage2'', 1)]\<rparr>,
      disk = [(''/storage/a'', [1, 2, 3]), (''/storage2/b'', [7])]\<rparr>"

definition orphaned_bytes :: system where
  "orphaned_bytes = \<lparr>db = empty_db, disk = [(''/storage/a'', [1, 2, 3])]\<rparr>"

definition small_upload :: UploadFile where
  "small_upload =
     \<lparr>upload_size = Some 2, filename = Some ''x.bin'', upload_content_type = None,
      content = [1, 2]\<rparr>"

definition env_for :: "string \<Rightarrow> upload_env" where
  "env_for u =
     \<lparr>uuid4 = u, utcnow_before = 7, utcnow_after = 9, open_fails = False,
      write_fails_at = None, remove_fails = {}\<rparr>"

definition record_for :: "string \<Rightarrow> string \<Rightarrow> file_data" where
  "record_for u v =
     \<lparr>file_id = u, original_name = Some ''x.bin'', file_size = 2, content_type = None,
      storage_path = v, expires_at = 5000007, uploaded_at = 9\<rparr>"

definition response_for :: "string \<Rightarrow> string \<Rightarrow> upload_response" where
  "response_for u v =
     \<lparr>resp_id = u, url = ''/api/files/'' @ u, download_url = ''/api/files/'' @ u @ ''/download'',
      info_url = ''/api/files/'' @ u @ ''/info'', resp_expires_at = 5000007, resp_size = 2,
      max_size = MAX_FILE_SIZE, storage_location = v\<rparr>"

definition uploaded_b :: system where
  "uploaded_b =
     \<lparr>db = \<lparr>files = [(''b'', record_for ''b'' ''/storage'')], stats = [(''/storage'', 1)]\<rparr>,
      disk = [(''/storage/b'', [1, 2])]\<rparr>"

definition uploaded_bc :: system where
  "uploaded_bc =
     \<lparr>db = \<lparr>files = [(''b'', record_for ''b'' ''/storage''), (''c'', record_for ''c'' ''/storage2'')],
            stats = [(''/storage'', 1), (''/storage2'', 1)]\<rparr>,
      disk = [(''/storage/b'', [1, 2]), (''/storage2/c'', [1, 2])]\<rparr>"

definition uploaded_bcd :: system where
  "uploaded_bcd =
     \<lparr>db = \<lparr>files = [(''b'', record_for ''b'' ''/storage''), (''c'', record_for ''c'' ''/storage2''),
                     (''d'', record_for ''d'' ''/storage3'')],
            stats = [(''/storage'', 1), (''/storage2'', 1), (''/storage3'', 1)]\<rparr>,
      disk = [(''/storage/b'', [1, 2]), (''/storage2/c'', [1, 2]), (''/storage3/d'', [1, 2])]\<rparr>"

definition two_chunk_upload :: UploadFile where
  "two_chunk_upload =
     \<lparr>upload_size = None, filename = None, upload_content_type = None,
      content = replicate 8193 0\<rparr>"

definition env_second_write_fails :: upload_env where
  "env_second_write_fails =
     \<lparr>uuid4 = ''b'', utcnow_before = 7, utcnow_after = 9, open_fails = False,
      write_fails_at = Some 1, remove_fails = {}\<rparr>"

definition huge_upload :: UploadFile where
  "huge_upload =
     \<lparr>upload_size = None, filename = None, upload_content_type = None,
      content = replicate 5368709121 0\<rparr>"

definition huge_declared_upload :: UploadFile where
  "huge_declared_upload =
     \<lparr>upload_size = Some 5368709121, filename = None, upload_content_type = None,
      content = replicate 5368709121 0\<rparr>"

definition env_remove_fails :: upload_env where
  "env_remove_fails =
     \<lparr>uuid4 = ''b'', utcnow_before = 7, utcnow_after = 9, open_fails = False,
      write_fails_at = None, remove_fails = {''/storage/b''}\<rparr>"

section \<open>Facts about floats\<close>

lemma bit_length_bounds: "0 < n \<Longrightarrow> 2 ^ (bit_length n - 1) \<le> n \<and> n < 2 ^ bit_length n"
proof (induction n rule: bit_length.induct)
  case (1 n)
  show ?case
  proof (cases "n div 2 = 0")
    case True
    with "1.prems" have "n = 1" by (simp add: div_eq_0_iff) 
    moreover have "bit_length (Suc 0) = Suc 0"
      by (simp add: bit_length.simps [of "Suc 0"] bit_length.simps [of 0])
    ultimately show ?thesis by simp
  next
    case False
    with "1.IH" "1.prems" have ih: "2 ^ (bit_length (n div 2) - 1) \<le> n div 2"
      "n div 2 < 2 ^ bit_length (n div 2)" by simp_all
    from False have pos: "0 < bit_length (n div 2)" by (simp add: bit_length.simps [of "n div 2"])
    have bl: "bit_length n = Suc (bit_length (n div 2))"
      using "1.prems" by (simp add: bit_length.simps [of n])
    have "2 ^ (bit_length n - 1) = 2 * 2 ^ (bit_length (n div 2) - 1)"
      using pos bl by (cases "bit_length (n div 2)") simp_all
    also have "\<dots> \<le> 2 * (n div 2)" using ih(1) by simp
    also have "\<dots> \<le> n" by simp
    finally have lo: "2 ^ (bit_length n - 1) \<le> n" .
    have "n < 2 * (n div 2) + 2" by presburger
    also have "\<dots> \<le> 2 * 2 ^ bit_length (n div 2)" using ih(2) by simp
    finally have "n < 2 ^ bit_length n" by (simp add: bl)
    with lo show ?thesis by simp
  qed
qed

lemma round_half_even_error:
  assumes "0 < q"
  shows "\<bar>rat_of_nat (round_half_even p q) - of_nat p / of_nat q\<bar> \<le> 1 / 2"
proof -
  have p: "rat_of_nat p = of_nat (p div q) * of_nat q + of_nat (p mod q)"
    by (metis of_nat_add of_nat_mult div_mult_mod_eq)
  have q: "0 < rat_of_nat q" using assms by simp
  have frac: "rat_of_nat p / of_nat q = of_nat (p div q) + of_nat (p mod q) / of_nat q"
    using q by (simp add: p field_simps)
  have r_lt: "rat_of_nat (p mod q) < of_nat q" using assms by simp
  consider "2 * (p mod q) < q" | "q < 2 * (p mod q)" | "2 * (p mod q) = q" by linarith
  then show ?thesis
  proof cases
    case 1
    then have "2 * rat_of_nat (p mod q) < of_nat q" by (metis of_nat_less_iff of_nat_mult of_nat_numeral)
    with 1 q show ?thesis by (simp add: round_half_even_def frac field_simps)
  next
    case 2
    then have "rat_of_nat q < 2 * of_nat (p mod q)" by (metis of_nat_less_iff of_nat_mult of_nat_numeral)
    with 2 q r_lt show ?thesis by (simp add: round_half_even_def frac field_simps abs_if)
  next
    case 3
    then have "2 * rat_of_nat (p mod q) = of_nat q" by (metis of_nat_mult of_nat_numeral)
    with 3 q show ?thesis by (auto simp: round_half_even_def frac field_simps abs_if)
  qed
qed

lemma two_powi_pos: "(0::rat) < 2 powi k"
  by (simp add: zero_less_power_int)

lemma binade_bounds:
  assumes "0 < p" and "0 < q"
  shows "rat_of_nat q * 2 powi binade p q \<le> of_nat p"
    and "rat_of_nat p < of_nat q * 2 powi (binade p q + 1)"
proof -
  define a where "a = bit_length p"
  define c where "c = bit_length q"
  from bit_length_bounds [OF assms(1)] have pa: "2 ^ (a - 1) \<le> p" "p < 2 ^ a"
    by (simp_all add: a_def)
  from bit_length_bounds [OF assms(2)] have qc: "2 ^ (c - 1) \<le> q" "q < 2 ^ c"
    by (simp_all add: c_def)
  from pa(2) assms(1) have a1: "1 \<le> a" by (cases a) simp_all
  from qc(2) assms(2) have c1: "1 \<le> c" by (cases c) simp_all
  have rp: "(2::rat) ^ (a - 1) \<le> of_nat p" "rat_of_nat p < 2 ^ a"
    using pa by (metis of_nat_le_iff of_nat_numeral of_nat_power, metis of_nat_less_iff of_nat_numeral of_nat_power)
  have rq: "(2::rat) ^ (c - 1) \<le> of_nat q" "rat_of_nat q < 2 ^ c"
    using qc by (metis of_nat_le_iff of_nat_numeral of_nat_power, metis of_nat_less_iff of_nat_numeral of_nat_power)
  have pw: "(2::rat) powi (int a - 1) = 2 ^ (a - 1)" "(2::rat) powi (int c - 1) = 2 ^ (c - 1)"
    using a1 c1 by (simp_all add: of_nat_diff flip: power_int_of_nat)
  have pwa: "(2::rat) powi int a = 2 ^ a" "(2::rat) powi int c = 2 ^ c" by simp_all
  define k where "k = int a - int c"
  have lower_weak: "rat_of_nat q * 2 powi (k - 1) \<le> of_nat p"
  proof -
    have "rat_of_nat q * 2 powi (k - 1) \<le> 2 ^ c * 2 powi (k - 1)"
      using rq(2) two_powi_pos [of "k - 1"] by (simp add: mult_right_mono)
    also have "\<dots> = 2 powi int c * 2 powi (k - 1)" by simp
    also have "\<dots> = 2 powi (int c + (k - 1))" by (rule power_int_add [symmetric]) simp
    also have "\<dots> = 2 ^ (a - 1)" using pw(1) by (simp add: k_def)
    also have "\<dots> \<le> of_nat p" by (rule rp(1))
    finally show ?thesis .
  qed
  have upper_weak: "rat_of_nat p < of_nat q * 2 powi (k + 1)"
  proof -
    have "rat_of_nat p < 2 powi (int c - 1 + (k + 1))" using rp(2) by (simp add: k_def)
    also have "\<dots> = 2 powi (int c - 1) * 2 powi (k + 1)" by (rule power_int_add) simp
    also have "\<dots> = 2 ^ (c - 1) * 2 powi (k + 1)" by (simp only: pw(2))
    also have "\<dots> \<le> of_nat q * 2 powi (k + 1)"
      using rq(1) two_powi_pos [of "k + 1"] by (simp add: mult_right_mono)
    finally show ?thesis .
  qed
  have test: "(if c \<le> a then q * 2 ^ (a - c) \<le> p else q \<le> p * 2 ^ (c - a))
              = (rat_of_nat q * 2 powi k \<le> of_nat p)"
  proof (cases "c \<le> a")
    case True
    then have "k = int (a - c)" by (simp add: k_def)
    then have "rat_of_nat q * 2 powi k = of_nat (q * 2 ^ (a - c))" by simp
    with True show ?thesis by (simp only: of_nat_le_iff if_True)
  next
    case False
    then have "k = - int (c - a)" by (simp add: k_def)
    then have "(rat_of_nat q * 2 powi k \<le> of_nat p) = (rat_of_nat q \<le> of_nat (p * 2 ^ (c - a)))"
      by (simp add: power_int_minus field_simps)
    with False show ?thesis by (simp only: of_nat_le_iff if_False)
  qed
  have b: "binade p q = (if rat_of_nat q * 2 powi k \<le> of_nat p then k else k - 1)"
  proof (cases "c \<le> a")
    case True
    with test have t: "(q * 2 ^ (a - c) \<le> p) = (rat_of_nat q * 2 powi k \<le> of_nat p)" by simp
    from True have "int (a - c) = k" by (simp add: k_def)
    with True t show ?thesis
      unfolding binade_def a_def [symmetric] c_def [symmetric] by simp
  next
    case False
    with test have t: "(q \<le> p * 2 ^ (c - a)) = (rat_of_nat q * 2 powi k \<le> of_nat p)" by simp
    from False have "- int (c - a) = k" by (simp add: k_def)
    with False t show ?thesis
      unfolding binade_def a_def [symmetric] c_def [symmetric] by simp
  qed
  show "rat_of_nat q * 2 powi binade p q \<le> of_nat p"
    using lower_weak by (simp add: b)
  show "rat_of_nat p < of_nat q * 2 powi (binade p q + 1)"
    using upper_weak by (auto simp: b not_le)
qed

lemma nearest_double_error:
  assumes "0 < p" and "0 < q"
  shows "\<bar>nearest_double p q - of_nat p / of_nat q\<bar> \<le> (of_nat p / of_nat q) / 2 ^ 53"
    and "0 < nearest_double p q"
proof -
  define x where "x = rat_of_nat p / of_nat q"
  define b where "b = binade p q"
  have q: "0 < rat_of_nat q" using assms(2) by simp
  from binade_bounds(1) [OF assms] q have lo: "2 powi b \<le> x"
    by (simp add: x_def b_def field_simps)
  have both: "\<bar>nearest_double p q - of_nat p / of_nat q\<bar> \<le> (of_nat p / of_nat q) / 2 ^ 53
        \<and> 0 < nearest_double p q"
  proof (cases "52 \<le> b")
    case True
    define e where "e = nat (b - 52)"
    define m where "m = rat_of_nat (round_half_even p (q * 2 ^ e))"
    define y where "y = x / 2 ^ e"
    from True have "b = 52 + int e" by (simp add: e_def)
    then have "(2::rat) powi b = 2 powi 52 * 2 powi int e" by (simp add: power_int_add)
    then have pb: "(2::rat) powi b = 2 ^ 52 * 2 ^ e" by simp
    have e2: "(0::rat) < 2 ^ e" by simp
    have "0 < q * 2 ^ e" using assms(2) by simp
    from round_half_even_error [OF this, of p]
    have my: "\<bar>m - y\<bar> \<le> 1 / 2" by (simp add: m_def y_def x_def)
    have ylo: "2 ^ 52 \<le> y" using lo e2 by (simp add: pb y_def field_simps)
    have val: "nearest_double p q = m * 2 ^ e"
      using True by (simp add: nearest_double_def b_def [symmetric] e_def m_def)
    have xy: "x = y * 2 ^ e" by (simp add: y_def)
    have "\<bar>m * 2 ^ e - x\<bar> = \<bar>m - y\<bar> * 2 ^ e"
      by (simp add: xy abs_mult flip: left_diff_distrib)
    also have "\<dots> \<le> 1 / 2 * 2 ^ e" using my e2 by (intro mult_right_mono) simp_all
    also have "\<dots> \<le> y * 2 ^ e / 2 ^ 53" using ylo e2 by (simp add: field_simps)
    finally have err: "\<bar>nearest_double p q - x\<bar> \<le> x / 2 ^ 53" by (simp add: val xy)
    have "(1::rat) \<le> 2 ^ 52" by simp
    with my ylo have "0 < m" by linarith
    with e2 have "0 < nearest_double p q" by (simp add: val)
    with err show ?thesis by (simp add: x_def)
  next
    case False
    define e where "e = nat (52 - b)"
    define m where "m = rat_of_nat (round_half_even (p * 2 ^ e) q)"
    define y where "y = x * 2 ^ e"
    from False have be: "b + int e = int 52" by (simp add: e_def)
    have "(2::rat) powi b * 2 ^ e = 2 powi b * 2 powi int e" by simp
    also have "\<dots> = 2 powi (b + int e)" by (rule power_int_add [symmetric]) simp
    also have "\<dots> = 2 ^ 52" unfolding be by (rule power_int_of_nat)
    finally have pb: "(2::rat) powi b * 2 ^ e = 2 ^ 52" .
    have e2: "(0::rat) < 2 ^ e" by simp
    from round_half_even_error [OF assms(2), of "p * 2 ^ e"]
    have my: "\<bar>m - y\<bar> \<le> 1 / 2" by (simp add: m_def y_def x_def)
    have "2 powi b * 2 ^ e \<le> x * 2 ^ e" using lo e2 by (intro mult_right_mono) simp_all
    then have ylo: "2 ^ 52 \<le> y" by (simp add: pb y_def)
    have val: "nearest_double p q = m / 2 ^ e"
      using False by (simp add: nearest_double_def b_def [symmetric] e_def m_def)
    have xy: "x = y / 2 ^ e" by (simp add: y_def)
    have "\<bar>m / 2 ^ e - x\<bar> = \<bar>m - y\<bar> / 2 ^ e"
      by (simp add: xy abs_divide flip: diff_divide_distrib)
    also have "\<dots> \<le> (1 / 2) / 2 ^ e" using my e2 by (intro divide_right_mono) simp_all
    also have "\<dots> \<le> y / 2 ^ e / 2 ^ 53" using ylo e2 by (simp add: field_simps)
    finally have err: "\<bar>nearest_double p q - x\<bar> \<le> x / 2 ^ 53" by (simp add: val xy)
    have "(1::rat) \<le> 2 ^ 52" by simp
    with my ylo have "0 < m" by linarith
    with e2 have "0 < nearest_double p q" by (simp add: val)
    with err show ?thesis by (simp add: x_def)
  qed
  from both show "\<bar>nearest_double p q - of_nat p / of_nat q\<bar> \<le> (of_nat p / of_nat q) / 2 ^ 53"
    and "0 < nearest_double p q" by simp_all
qed

lemma total_seconds_sign:
  "(total_seconds d \<le> 0) = (d \<le> 0)" "(total_seconds d = 0) = (d = 0)"
  "(0 < total_seconds d) = (0 < d)"
  using nearest_double_error(2) [of "nat d" 1000000] nearest_double_error(2) [of "nat (- d)" 1000000]
  by (auto simp: total_seconds_def)

lemma total_seconds_error:
  "\<bar>total_seconds d - of_int d / 1000000\<bar> \<le> \<bar>of_int d / 1000000\<bar> / 2 ^ 53"
proof -
  consider "d = 0" | "0 < d" | "d < 0" by linarith
  then show ?thesis
  proof cases
    case 1
    then show ?thesis by (simp add: total_seconds_def)
  next
    case 2
    define x where "x = rat_of_nat (nat d) / of_nat 1000000"
    from 2 have x: "x = of_int d / 1000000" "0 < x" by (simp_all add: x_def)
    from 2 have "\<bar>nearest_double (nat d) 1000000 - x\<bar> \<le> x / 2 ^ 53"
      unfolding x_def by (intro nearest_double_error(1)) simp_all
    moreover from 2 have "total_seconds d = nearest_double (nat d) 1000000"
      by (simp add: total_seconds_def)
    ultimately show ?thesis using x by simp
  next
    case 3
    define x where "x = rat_of_nat (nat (- d)) / of_nat 1000000"
    from 3 have x: "- x = of_int d / 1000000" "0 < x" by (simp_all add: x_def)
    from 3 have "\<bar>nearest_double (nat (- d)) 1000000 - x\<bar> \<le> x / 2 ^ 53"
      unfolding x_def by (intro nearest_double_error(1)) simp_all
    then have "\<bar>- nearest_double (nat (- d)) 1000000 - (- x)\<bar> \<le> \<bar>- x\<bar> / 2 ^ 53"
      using x(2) by (simp add: abs_minus_commute)
    moreover from 3 have "total_seconds d = - nearest_double (nat (- d)) 1000000"
      by (simp add: total_seconds_def)
    ultimately show ?thesis by (simp only: x(1))
  qed
qed

lemma bit_length_numeral:
  "bit_length 0 = 0"
  "bit_length (Suc 0) = Suc 0"
  "bit_length (numeral Num.One) = Suc 0"
  "bit_length (numeral (Num.Bit0 n)) = Suc (bit_length (numeral n))"
  "bit_length (numeral (Num.Bit1 n)) = Suc (bit_length (numeral n))"
proof -
  show "bit_length 0 = 0" by (simp add: bit_length.simps [of 0])
  then show one: "bit_length (Suc 0) = Suc 0" by (simp add: bit_length.simps [of "Suc 0"])
  then show "bit_length (numeral Num.One) = Suc 0" by simp
  have "numeral (Num.Bit0 n) div 2 = (numeral n :: nat)" by simp
  then show "bit_length (numeral (Num.Bit0 n)) = Suc (bit_length (numeral n))"
    by (subst bit_length.simps) simp
  have "numeral (Num.Bit1 n) div 2 = (numeral n :: nat)" by simp
  then show "bit_length (numeral (Num.Bit1 n)) = Suc (bit_length (numeral n))"
    by (subst bit_length.simps) simp
qed

lemma total_seconds_zero: "total_seconds 0 = 0"
  by (simp add: total_seconds_def)

lemma total_seconds_one_microsecond:
  "total_seconds 1 = 4722366482869645 / 4722366482869645213696"
  by (simp add: total_seconds_def nearest_double_def binade_def bit_length_numeral
      round_half_even_def)

section \<open>Facts about the database\<close>

lemma dict_get_absent: "k \<notin> fst ` set st \<Longrightarrow> dict_get st k dflt = dflt"
  using map_of_eq_None_iff [of st k] by (simp add: dict_get_def)

lemma dict_get_update:
  "dict_get (AList.update k v st) k' dflt = (if k' = k then v else dict_get st k' dflt)"
  by (simp add: dict_get_def update_conv')

lemma dict_get_delete:
  "dict_get (AList.delete k st) k' dflt = (if k' = k then dflt else dict_get st k' dflt)"
  by (simp add: dict_get_def delete_conv')

lemma live_count_absent:
  "v \<notin> (\<lambda>e. storage_path (snd e)) ` set (files d) \<Longrightarrow> live_count d v = 0"
  by (auto simp: live_count_def filter_empty_conv)

lemma counters_consistent_iff:
  "counters_consistent d \<longleftrightarrow>
     distinct (map fst (files d)) \<and> (\<forall>v. dict_get (stats d) v 0 = int (live_count d v))"
proof -
  have "dict_get (stats d) v 0 = int (live_count d v)"
    if "list_all (\<lambda>v. dict_get (stats d) v 0 = int (live_count d v))
          (map fst (stats d) @ map (\<lambda>e. storage_path (snd e)) (files d))" for v
  proof (cases "v \<in> fst ` set (stats d) \<or> v \<in> (\<lambda>e. storage_path (snd e)) ` set (files d)")
    case True
    with that show ?thesis by (auto simp: list_all_iff)
  next
    case False
    then show ?thesis by (simp add: dict_get_absent live_count_absent)
  qed
  then show ?thesis by (auto simp: counters_consistent_def list_all_iff)
qed

lemma update_fresh: "map_of al k = None \<Longrightarrow> AList.update k v al = al @ [(k, v)]"
  by (induction al) (auto split: if_splits)

lemma filter_delete_length:
  "distinct (map fst al) \<Longrightarrow> map_of al k = Some x \<Longrightarrow>
   length (filter P (AList.delete k al)) + (if P (k, x) then 1 else 0) = length (filter P al)"
proof (induction al)
  case Nil
  then show ?case by simp
next
  case (Cons e al)
  show ?case
  proof (cases "fst e = k")
    case True
    with Cons.prems have "e = (k, x)" by (cases e) auto
    moreover from True Cons.prems have "k \<notin> fst ` set al" by auto
    ultimately show ?thesis by (simp add: AList.delete_id)
  next
    case False
    with Cons show ?thesis by (cases e) auto
  qed
qed

lemma add_file_consistent:
  assumes "counters_consistent d" and "get_file d fid = None"
  shows "counters_consistent (add_file d fid data)"
  using assms unfolding counters_consistent_iff
  by (auto simp: add_file_def get_file_def update_fresh dict_get_update live_count_def
      map_of_eq_None_iff)

lemma db_delete_file_absent: "get_file d fid = None \<Longrightarrow> db_delete_file d fid = (False, d)"
  by (simp add: db_delete_file_def get_file_def)

lemma db_delete_file_consistent:
  assumes "counters_consistent d"
  shows "counters_consistent (snd (db_delete_file d fid))"
proof (cases "map_of (files d) fid")
  case None
  with assms show ?thesis by (simp add: db_delete_file_def)
next
  case (Some data)
  from assms have dist: "distinct (map fst (files d))"
    and cnt: "\<And>v. dict_get (stats d) v 0 = int (live_count d v)"
    by (simp_all add: counters_consistent_iff)
  have len: "\<And>v. length (filter (\<lambda>e. storage_path (snd e) = v) (AList.delete fid (files d)))
       + (if storage_path data = v then 1 else 0) = live_count d v"
    using filter_delete_length [OF dist Some, of "\<lambda>e. storage_path (snd e) = _"]
    by (simp add: live_count_def)
  have pos: "1 \<le> live_count d (storage_path data)"
    using len [of "storage_path data"] by simp
  with cnt [of "storage_path data"] obtain c where
    c: "map_of (stats d) (storage_path data) = Some c" "c = int (live_count d (storage_path data))"
    by (cases "map_of (stats d) (storage_path data)") (auto simp: dict_get_def)
  show ?thesis
    unfolding counters_consistent_iff
  proof (intro conjI allI)
    show "distinct (map fst (files (snd (db_delete_file d fid))))"
      using dist Some by (simp add: db_delete_file_def distinct_delete)
  next
    fix v
    show "dict_get (stats (snd (db_delete_file d fid))) v 0
          = int (live_count (snd (db_delete_file d fid)) v)"
      using Some c pos len [of v] cnt [of v]
      by (auto simp: db_delete_file_def dict_get_update dict_get_delete live_count_def)
  qed
qed

lemma get_file_delete: "get_file (snd (db_delete_file d fid)) fid = None"
  by (simp add: db_delete_file_def get_file_def delete_conv' split: option.splits)

lemma get_file_delete_other:
  "fid' \<noteq> fid \<Longrightarrow> get_file (snd (db_delete_file d fid)) fid' = get_file d fid'"
  by (simp add: db_delete_file_def get_file_def delete_conv' split: option.splits)

lemma db_delete_file_counter:
  assumes "counters_consistent d" and "get_file d fid = Some data"
  shows "dict_get (stats (snd (db_delete_file d fid))) v 0 =
         dict_get (stats d) v 0 - (if storage_path data = v then 1 else 0)"
proof -
  from assms have dist: "distinct (map fst (files d))"
    and cnt: "\<And>v. dict_get (stats d) v 0 = int (live_count d v)"
    by (simp_all add: counters_consistent_iff)
  from assms(2) have look: "map_of (files d) fid = Some data" by (simp add: get_file_def)
  have "live_count (snd (db_delete_file d fid)) v + (if storage_path data = v then 1 else 0)
        = live_count d v"
    using filter_delete_length [OF dist look, of "\<lambda>e. storage_path (snd e) = v"] look
    by (simp add: live_count_def db_delete_file_def)
  moreover have "dict_get (stats (snd (db_delete_file d fid))) v 0
        = int (live_count (snd (db_delete_file d fid)) v)"
    using db_delete_file_consistent [OF assms(1), of fid] by (simp add: counters_consistent_iff)
  ultimately show ?thesis using cnt [of v] by (auto split: if_splits)
qed

section \<open>Facts about the reaper\<close>

lemma filter_absent_key: "map_of al k = None \<Longrightarrow> filter (\<lambda>e. fst e \<noteq> k) al = al"
  by (induction al) (auto split: if_splits)

lemma delete_as_filter: "AList.delete k al = filter (\<lambda>e. fst e \<noteq> k) al"
  by (induction al) auto

lemma reclaim_files:
  "files (db (reclaim undeletable s fid)) = filter (\<lambda>e. fst e \<noteq> fid) (files (db s))"
  by (auto simp: reclaim_def get_file_def db_delete_file_def filter_absent_key delete_as_filter
      split: option.splits)

lemma cleanup_loop_files:
  "files (db (cleanup_loop undeletable fids s)) = filter (\<lambda>e. fst e \<notin> set fids) (files (db s))"
proof (induction fids arbitrary: s)
  case Nil
  show ?case by simp
next
  case (Cons fid fids)
  have "(\<lambda>e. fst e \<notin> set fids \<and> fst e \<noteq> fid) = (\<lambda>e::string \<times> file_data. fst e \<noteq> fid \<and> fst e \<notin> set fids)"
    by auto
  then show ?case by (simp add: Cons.IH reclaim_files)
qed

lemma reclaim_consistent:
  "counters_consistent (db s) \<Longrightarrow> counters_consistent (db (reclaim undeletable s fid))"
  by (auto simp: reclaim_def db_delete_file_consistent split: option.splits)

lemma cleanup_loop_consistent:
  "counters_consistent (db s) \<Longrightarrow> counters_consistent (db (cleanup_loop undeletable fids s))"
  by (induction fids arbitrary: s) (simp_all add: reclaim_consistent)

lemma reclaim_keeps_undeletable:
  "p \<in> undeletable \<Longrightarrow> map_of (disk (reclaim undeletable s fid)) p = map_of (disk s) p"
  by (auto simp: reclaim_def remove_ignoring_errors_def os_remove_def delete_conv'
      split: option.splits)

lemma cleanup_loop_keeps_undeletable:
  "p \<in> undeletable \<Longrightarrow> map_of (disk (cleanup_loop undeletable fids s)) p = map_of (disk s) p"
  by (induction fids arbitrary: s) (simp_all add: reclaim_keeps_undeletable)

lemma filter_selected_keys:
  assumes "distinct (map fst al)"
  shows "filter (\<lambda>e. fst e \<notin> set (map fst (filter P al))) al = filter (\<lambda>e. \<not> P e) al"
proof (rule filter_cong [OF refl])
  fix e assume e: "e \<in> set al"
  have "P e" if "e' \<in> set al" "P e'" "fst e' = fst e" for e'
  proof -
    from assms e that(1,3) have "e' = e"
      by (metis eq_key_imp_eq_value prod.collapse)
    with that(2) show ?thesis by simp
  qed
  with e show "(fst e \<notin> set (map fst (filter P al))) = (\<not> P e)" by force
qed

lemma cleanup_expired_files_files:
  assumes "distinct (map fst (files (db s)))"
  shows "files (db (cleanup_expired_files s now undeletable))
         = filter (\<lambda>e. \<not> is_expired now e) (files (db s))"
  unfolding cleanup_expired_files_def get_expired_files_def cleanup_loop_files
  by (rule filter_selected_keys [OF assms])

lemma length_filter_split:
  "length (filter P xs) = length (filter P (filter (\<lambda>e. \<not> Q e) xs)) + length (filter (\<lambda>e. Q e \<and> P e) xs)"
  by (induction xs) auto

lemma cleanup_expired_files_counter:
  assumes "counters_consistent (db s)"
  shows "dict_get (stats (db (cleanup_expired_files s now undeletable))) v 0
         = dict_get (stats (db s)) v 0
           - int (length (filter (\<lambda>e. is_expired now e \<and> storage_path (snd e) = v) (files (db s))))"
proof -
  let ?s' = "cleanup_expired_files s now undeletable"
  from assms have dist: "distinct (map fst (files (db s)))"
    and cnt: "dict_get (stats (db s)) v 0 = int (live_count (db s) v)"
    by (simp_all add: counters_consistent_iff)
  have "counters_consistent (db ?s')"
    unfolding cleanup_expired_files_def by (rule cleanup_loop_consistent [OF assms])
  then have "dict_get (stats (db ?s')) v 0 = int (live_count (db ?s') v)"
    by (simp add: counters_consistent_iff)
  moreover have "live_count (db s) v = live_count (db ?s') v
      + length (filter (\<lambda>e. is_expired now e \<and> storage_path (snd e) = v) (files (db s)))"
    unfolding live_count_def cleanup_expired_files_files [OF dist]
    by (rule length_filter_split)
  ultimately show ?thesis using cnt by simp
qed

lemma cleanup_nothing_expired:
  "get_expired_files (db s) now = [] \<Longrightarrow> cleanup_expired_files s now undeletable = s"
  by (simp add: cleanup_expired_files_def)

lemma cleanup_removes_expired:
  assumes "get_file (db s) fid = Some data" and "expires_at data < now"
  shows "get_file (db (cleanup_expired_files s now undeletable)) fid = None"
proof -
  from assms(1) have "(fid, data) \<in> set (files (db s))"
    by (simp add: get_file_def map_of_SomeD)
  with assms(2) have "fid \<in> set (get_expired_files (db s) now)"
    by (force simp: get_expired_files_def is_expired_def)
  then have "fid \<notin> fst ` set (files (db (cleanup_expired_files s now undeletable)))"
    by (auto simp: cleanup_expired_files_def cleanup_loop_files)
  then show ?thesis by (simp add: get_file_def map_of_eq_None_iff)
qed

section \<open>Facts about create\<close>

lemma save_chunks_oversize:
  "fsize \<le> MAX_FILE_SIZE \<Longrightarrow> MAX_FILE_SIZE < fsize + length rest \<Longrightarrow>
   \<exists>n. save_chunks None k fsize written rest = Oversize (written @ take n rest)"
proof (induction "None :: nat option" k fsize written rest rule: save_chunks.induct)
  case (1 k fsize written rest)
  let ?chunk = "take CHUNK_SIZE rest"
  from "1.prems" have ne: "?chunk \<noteq> []" by (auto simp: CHUNK_SIZE_def)
  show ?case
  proof (cases "MAX_FILE_SIZE < fsize + length ?chunk")
    case True
    with ne have "save_chunks None k fsize written rest = Oversize (written @ take 0 rest)"
      by (subst save_chunks.simps) simp
    then show ?thesis by blast
  next
    case False
    have "fsize + length ?chunk + length (drop CHUNK_SIZE rest) = fsize + length rest"
      by simp
    with "1.prems" False "1.hyps" [OF ne] obtain n where
      "save_chunks None (Suc k) (fsize + length ?chunk) (written @ ?chunk) (drop CHUNK_SIZE rest)
       = Oversize ((written @ ?chunk) @ take n (drop CHUNK_SIZE rest))"
      by (metis not_less option.distinct(1))
    moreover have "save_chunks None k fsize written rest
       = save_chunks None (Suc k) (fsize + length ?chunk) (written @ ?chunk) (drop CHUNK_SIZE rest)"
      using ne False by (subst save_chunks.simps) simp
    ultimately have "save_chunks None k fsize written rest
       = Oversize (written @ take (CHUNK_SIZE + n) rest)"
      by (simp add: take_add)
    then show ?thesis by blast
  qed
qed

lemma save_chunks_not_saved:
  "fsize \<le> MAX_FILE_SIZE \<Longrightarrow> MAX_FILE_SIZE < fsize + length rest \<Longrightarrow>
   save_chunks failing k fsize written rest \<noteq> Saved a b"
proof (induction failing k fsize written rest rule: save_chunks.induct)
  case (1 failing k fsize written rest)
  let ?chunk = "take CHUNK_SIZE rest"
  from "1.prems" have ne: "?chunk \<noteq> []" by (auto simp: CHUNK_SIZE_def)
  have len: "fsize + length ?chunk + length (drop CHUNK_SIZE rest) = fsize + length rest"
    by simp
  show ?case
  proof (cases "MAX_FILE_SIZE < fsize + length ?chunk \<or> failing = Some k")
    case True
    with ne show ?thesis by (subst save_chunks.simps) auto
  next
    case False
    with "1.prems" len "1.IH" [OF ne] have
      "save_chunks failing (Suc k) (fsize + length ?chunk) (written @ ?chunk) (drop CHUNK_SIZE rest)
       \<noteq> Saved a b"
      by (metis not_less)
    moreover have "save_chunks failing k fsize written rest
       = save_chunks failing (Suc k) (fsize + length ?chunk) (written @ ?chunk) (drop CHUNK_SIZE rest)"
      using ne False by (subst save_chunks.simps) simp
    ultimately show ?thesis by simp
  qed
qed

lemma select_storage_path_total: "\<exists>p. select_storage_path d = Inr p"
  by (simp add: select_storage_path_def py_min_def counts_def STORAGE_PATHS_def)

lemma upload_file_error_db:
  "fst (upload_file s file expires_in env) = Inl e \<Longrightarrow>
   db (snd (upload_file s file expires_in env)) = db s"
  by (auto simp: upload_file_def split: if_splits sum.splits option.splits save_result.splits)

lemma upload_file_success:
  assumes "upload_file s file expires_in env = (Inr r, s')"
  obtains spath expiry fsize written where
    "select_storage_path (db s) = Inr spath"
    "add_seconds (utcnow_before env) expires_in = Some expiry"
    "save_chunks (write_fails_at env) 0 0 [] (content file) = Saved fsize written"
    "storage_location r = spath" "resp_id r = uuid4 env" "resp_expires_at r = expiry"
    "db s' = add_file (db s) (uuid4 env)
               \<lparr>file_id = uuid4 env, original_name = filename file, file_size = fsize,
                content_type = upload_content_type file, storage_path = spath,
                expires_at = expiry, uploaded_at = utcnow_after env\<rparr>"
  using assms
  by (auto simp: upload_file_def split: if_splits sum.splits option.splits save_result.splits)

section \<open>Inspect and download\<close>

text \<open>
  Claim C9 as stated fails twice. At the instant of expiry (the record of \<open>one_file\<close>
  expires at 1000) inspect answers \<open>expired = True\<close> and the download is served, not
  refused. And \<open>remaining_seconds\<close> is a float: one microsecond before expiry it is the
  double nearest to a millionth, which is not a millionth.
\<close>

theorem get_file_info_expired_while_download_serves:
  "get_file (db one_file) ''a'' = Some stored_record
   \<and> get_file_info one_file ''a'' 1000 =
       Inr \<lparr>info_id = ''a'', info_original_name = Some ''n.txt'', info_size = 3,
            info_content_type = None, info_storage_location = ''/storage'',
            info_uploaded_at = 10, info_expires_at = 1000,
            remaining_seconds = 0, expired = True\<rparr>
   \<and> download_file one_file ''a'' 1000 =
       Inr \<lparr>path = ''/storage/a'', resp_filename = Some ''n.txt'', media_type = None,
            resp_body = [1, 2, 3]\<rparr>
   \<and> get_file_info one_file ''a'' 999 =
       Inr \<lparr>info_id = ''a'', info_original_name = Some ''n.txt'', info_size = 3,
            info_content_type = None, info_storage_location = ''/storage'',
            info_uploaded_at = 10, info_expires_at = 1000,
            remaining_seconds = 4722366482869645 / 4722366482869645213696, expired = False\<rparr>
   \<and> (4722366482869645 / 4722366482869645213696 :: rat)
       \<noteq> rat_of_int (expires_at stored_record - 999) / 1000000"
  by (simp add: one_file_def get_file_def stored_record_def get_file_info_def download_file_def
      os_path_join_def total_seconds_one_microsecond total_seconds_zero)

text \<open>
  Claim C9, amended. For a handle whose record exists, \<^verbatim>\<open>get_file_info\<close> never fails: it
  returns the stored metadata, \<open>remaining_seconds\<close> and \<open>expired\<close>. \<open>remaining_seconds\<close>
  is the float that \<^verbatim>\<open>total_seconds()\<close> returns for \<open>expires_at - now\<close>, floored at zero:
  it is the remaining time in seconds floored at zero up to a relative rounding error of
  \<open>2^-53\<close>. \<open>expired\<close> is set exactly when \<open>expires_at \<le> now\<close>, which is exactly when
  \<open>remaining_seconds\<close> is zero, and clear exactly when \<open>remaining_seconds\<close> is positive.
  \<^verbatim>\<open>download_file\<close> answers 410 when \<open>expires_at < now\<close>; at \<open>now = expires_at\<close> inspect
  says expired and the download does not answer 410.
\<close>

theorem get_file_info_reports_expiry:
  "get_file (db s) fid = Some data \<Longrightarrow>
     get_file_info s fid now =
       Inr \<lparr>info_id = fid,
            info_original_name = original_name data,
            info_size = file_size data,
            info_content_type = content_type data,
            info_storage_location = storage_path data,
            info_uploaded_at = uploaded_at data,
            info_expires_at = expires_at data,
            remaining_seconds = max 0 (total_seconds (expires_at data - now)),
            expired = (expires_at data \<le> now)\<rparr>
     \<and> \<bar>max 0 (total_seconds (expires_at data - now))
          - max 0 (rat_of_int (expires_at data - now) / 1000000)\<bar>
         \<le> max 0 (rat_of_int (expires_at data - now) / 1000000) / 2 ^ 53
     \<and> ((expires_at data \<le> now) = (max 0 (total_seconds (expires_at data - now)) = 0))
     \<and> ((now < expires_at data) = (0 < max 0 (total_seconds (expires_at data - now))))
     \<and> (expires_at data < now \<longrightarrow> download_file s fid now = Inl Expired)
     \<and> (expires_at data = now \<longrightarrow> download_file s fid now \<noteq> Inl Expired)"
proof (intro conjI impI)
  assume rec: "get_file (db s) fid = Some data"
  define d where "d = expires_at data - now"
  have sign: "(total_seconds d \<le> 0) = (d \<le> 0)" "(0 < total_seconds d) = (0 < d)"
    by (rule total_seconds_sign)+
  from rec show "get_file_info s fid now =
       Inr \<lparr>info_id = fid,
            info_original_name = original_name data,
            info_size = file_size data,
            info_content_type = content_type data,
            info_storage_location = storage_path data,
            info_uploaded_at = uploaded_at data,
            info_expires_at = expires_at data,
            remaining_seconds = max 0 (total_seconds (expires_at data - now)),
            expired = (expires_at data \<le> now)\<rparr>"
    by (simp add: get_file_info_def total_seconds_sign)
  show "\<bar>max 0 (total_seconds (expires_at data - now))
          - max 0 (rat_of_int (expires_at data - now) / 1000000)\<bar>
        \<le> max 0 (rat_of_int (expires_at data - now) / 1000000) / 2 ^ 53"
  proof (cases "0 < d")
    case True
    with sign(2) have "0 < total_seconds d" by simp
    moreover from True have "0 < rat_of_int d / 1000000" by simp
    ultimately show ?thesis
      using total_seconds_error [of d] unfolding d_def [symmetric] by (simp add: max_def)
  next
    case False
    with sign(1) have "total_seconds d \<le> 0" by simp
    moreover from False have "rat_of_int d / 1000000 \<le> 0" by simp
    ultimately show ?thesis unfolding d_def [symmetric] by (simp add: max_def)
  qed
  show "(expires_at data \<le> now) = (max 0 (total_seconds (expires_at data - now)) = 0)"
    using sign unfolding d_def by (auto simp: max_def)
  show "(now < expires_at data) = (0 < max 0 (total_seconds (expires_at data - now)))"
    using sign unfolding d_def by (auto simp: max_def)
  from rec show "download_file s fid now = Inl Expired" if "expires_at data < now"
    using that by (simp add: download_file_def)
  from rec show "download_file s fid now \<noteq> Inl Expired" if "expires_at data = now"
    using that by (simp add: download_file_def split: option.splits)
qed

text \<open>
  The record of \<open>one_file\<close> expires at 1000: at 2000 it is still described, with nothing
  remaining, and not served; at 999 a microsecond remains.
\<close>

theorem get_file_info_reports_expiry_witness:
  "get_file (db one_file) ''a'' = Some stored_record
   \<and> get_file_info one_file ''a'' 2000 =
       Inr \<lparr>info_id = ''a'', info_original_name = Some ''n.txt'', info_size = 3,
            info_content_type = None, info_storage_location = ''/storage'',
            info_uploaded_at = 10, info_expires_at = 1000,
            remaining_seconds = 0, expired = True\<rparr>
   \<and> download_file one_file ''a'' 2000 = Inl Expired
   \<and> get_file_info one_file ''a'' 999 =
       Inr \<lparr>info_id = ''a'', info_original_name = Some ''n.txt'', info_size = 3,
            info_content_type = None, info_storage_location = ''/storage'',
            info_uploaded_at = 10, info_expires_at = 1000,
            remaining_seconds = 4722366482869645 / 4722366482869645213696, expired = False\<rparr>
   \<and> download_file one_file ''a'' 1000 \<noteq> Inl Expired"
proof -
  have h: "get_file (db one_file) ''a'' = Some stored_record"
    by (simp add: one_file_def get_file_def)
  have v: "expires_at stored_record = 1000" by (simp add: stored_record_def)
  note at_2000 = get_file_info_reports_expiry [OF h, of 2000]
  note at_999 = get_file_info_reports_expiry [OF h, of 999]
  note at_1000 = get_file_info_reports_expiry [OF h, of 1000]
  have "max 0 (total_seconds (expires_at stored_record - 2000)) = 0"
    using at_2000 [THEN conjunct2, THEN conjunct2, THEN conjunct1] by (simp add: v)
  with at_2000 have a: "get_file_info one_file ''a'' 2000 =
       Inr \<lparr>info_id = ''a'', info_original_name = Some ''n.txt'', info_size = 3,
            info_content_type = None, info_storage_location = ''/storage'',
            info_uploaded_at = 10, info_expires_at = 1000,
            remaining_seconds = 0, expired = True\<rparr>"
    and b: "download_file one_file ''a'' 2000 = Inl Expired"
    by (simp_all add: stored_record_def)
  from at_999 have c: "get_file_info one_file ''a'' 999 =
       Inr \<lparr>info_id = ''a'', info_original_name = Some ''n.txt'', info_size = 3,
            info_content_type = None, info_storage_location = ''/storage'',
            info_uploaded_at = 10, info_expires_at = 1000,
            remaining_seconds = 4722366482869645 / 4722366482869645213696, expired = False\<rparr>"
    by (simp add: stored_record_def total_seconds_one_microsecond)
  from at_1000 have d: "download_file one_file ''a'' 1000 \<noteq> Inl Expired"
    by (simp add: v)
  from h a b c d show ?thesis by simp
qed

text \<open>
  Claim C2 as stated fails at the instant of expiry: the record of \<open>one_file\<close> expires at
  1000, and at 1000 the download is served.
\<close>

theorem download_file_serves_at_expiry_instant:
  "get_file (db one_file) ''a'' = Some stored_record
   \<and> expires_at stored_record \<le> 1000
   \<and> download_file one_file ''a'' 1000 =
       Inr \<lparr>path = ''/storage/a'', resp_filename = Some ''n.txt'', media_type = None,
            resp_body = [1, 2, 3]\<rparr>"
  by (simp add: one_file_def get_file_def stored_record_def download_file_def os_path_join_def)

text \<open>
  Claim C2, amended. For a handle whose record exists, \<^verbatim>\<open>download_file\<close> fails with 410
  exactly when \<open>expires_at < now\<close>, whatever the reaper has done; and when the record is
  not expired in that sense and no file is at its path, it fails with the 404 of a file
  missing from storage.
\<close>

theorem download_file_expired_iff_past:
  "get_file (db s) fid = Some data \<Longrightarrow>
     (download_file s fid now = Inl Expired) = (expires_at data < now)
     \<and> (\<not> expires_at data < now
          \<and> \<not> os_path_exists (disk s) (os_path_join (storage_path data) fid)
         \<longrightarrow> download_file s fid now = Inl NotFoundInStorage
             \<and> status_code NotFoundInStorage = 404)"
  by (auto simp: download_file_def os_path_exists_def split: option.splits)

text \<open>In \<open>bytes_lost\<close> the record is there and the file is not.\<close>

theorem download_file_expired_iff_past_witness:
  "get_file (db bytes_lost) ''a'' = Some stored_record
   \<and> download_file bytes_lost ''a'' 1001 = Inl Expired
   \<and> download_file bytes_lost ''a'' 1000 = Inl NotFoundInStorage"
proof -
  have h: "get_file (db bytes_lost) ''a'' = Some stored_record"
    by (simp add: bytes_lost_def get_file_def)
  show ?thesis
    using h download_file_expired_iff_past [OF h, of 1001]
      download_file_expired_iff_past [OF h, of 1000]
    by (simp add: stored_record_def bytes_lost_def os_path_exists_def)
qed

section \<open>Delete\<close>

text \<open>
  Claim C8. \<^verbatim>\<open>delete_file\<close> answers 404 and changes nothing when the handle has no record.
  When it has one, the answer is "deleted" whether or not a file was at its path; the file
  is gone afterwards unless its removal was refused; the record is gone; in a state whose
  counters are consistent the counter of its volume is one less; and right after, inspect
  and a second delete both answer 404.
\<close>

theorem delete_file_removes_record:
  "(get_file (db s) fid = None \<longrightarrow> delete_file s fid undeletable = (Inl NotFound, s))
   \<and> (get_file (db s) fid = Some data \<longrightarrow>
        fst (delete_file s fid undeletable) = Inr (Deleted fid)
      \<and> (os_path_join (storage_path data) fid \<notin> undeletable \<longrightarrow>
           \<not> os_path_exists (disk (snd (delete_file s fid undeletable)))
               (os_path_join (storage_path data) fid))
      \<and> get_file (db (snd (delete_file s fid undeletable))) fid = None
      \<and> (counters_consistent (db s) \<longrightarrow>
           dict_get (stats (db (snd (delete_file s fid undeletable)))) (storage_path data) 0
             = dict_get (stats (db s)) (storage_path data) 0 - 1)
      \<and> get_file_info (snd (delete_file s fid undeletable)) fid now = Inl NotFound
      \<and> fst (delete_file (snd (delete_file s fid undeletable)) fid undeletable') = Inl NotFound)"
  by (auto simp: delete_file_def get_file_delete get_file_info_def db_delete_file_counter
      remove_ignoring_errors_def os_remove_def os_path_exists_def delete_conv')

text \<open>Deleting the one file of \<open>one_file\<close>, and deleting from the empty store.\<close>

theorem delete_file_removes_record_witness:
  "get_file (db no_files) ''a'' = None
   \<and> delete_file no_files ''a'' {} = (Inl NotFound, no_files)
   \<and> get_file (db one_file) ''a'' = Some stored_record
   \<and> os_path_join (storage_path stored_record) ''a'' \<notin> {}
   \<and> counters_consistent (db one_file)
   \<and> delete_file one_file ''a'' {} = (Inr (Deleted ''a''), no_files)
   \<and> dict_get (stats (db no_files)) ''/storage'' 0 = dict_get (stats (db one_file)) ''/storage'' 0 - 1
   \<and> get_file_info no_files ''a'' 5 = Inl NotFound"
proof -
  have none: "get_file (db no_files) ''a'' = None"
    by (simp add: no_files_def empty_db_def get_file_def)
  have some: "get_file (db one_file) ''a'' = Some stored_record"
    by (simp add: one_file_def get_file_def)
  have cons: "counters_consistent (db one_file)"
    by (simp add: counters_consistent_def one_file_def live_count_def dict_get_def
        stored_record_def)
  have sp: "storage_path stored_record = ''/storage''"
    by (simp add: stored_record_def)
  have del: "delete_file one_file ''a'' {} = (Inr (Deleted ''a''), no_files)"
    by (simp add: delete_file_def get_file_def db_delete_file_def remove_ignoring_errors_def
        os_remove_def os_path_join_def one_file_def stored_record_def no_files_def empty_db_def)
  show ?thesis
    using none some cons del
      delete_file_removes_record [of no_files "''a''" "{}" stored_record 5 "{}"]
      delete_file_removes_record [of one_file "''a''" "{}" stored_record 5 "{}"]
    by (simp add: sp)
qed

section \<open>The reaper\<close>

text \<open>
  Claim C4 as stated fails at the instant of expiry: the record of \<open>one_file\<close> has
  \<open>expires_at = 1000\<close>, and a pass at 1000 leaves it, its file and its counter in place.
\<close>

theorem cleanup_expired_files_keeps_record_at_expiry_instant:
  "expires_at stored_record \<le> 1000
   \<and> get_file (db one_file) ''a'' = Some stored_record
   \<and> cleanup_expired_files one_file 1000 {} = one_file"
  by (simp add: cleanup_expired_files_def get_expired_files_def is_expired_def one_file_def
      stored_record_def get_file_def)

text \<open>
  Claim C4, amended. One pass of the reaper reclaims exactly the records with
  \<open>expires_at < now\<close>: in a state whose counters are consistent, the records left are the
  others, in their order and unchanged; every volume's counter goes down by the number of
  reclaimed records that were on it; and when no record has \<open>expires_at < now\<close> the pass
  changes nothing at all.
\<close>

theorem cleanup_expired_files_reclaims_past_records:
  "counters_consistent (db s) \<Longrightarrow>
     files (db (cleanup_expired_files s now undeletable))
       = filter (\<lambda>e. \<not> expires_at (snd e) < now) (files (db s))
     \<and> (\<forall>v. dict_get (stats (db (cleanup_expired_files s now undeletable))) v 0
              = dict_get (stats (db s)) v 0
                - int (length (filter (\<lambda>e. expires_at (snd e) < now \<and> storage_path (snd e) = v)
                                 (files (db s)))))
     \<and> (filter (\<lambda>e. expires_at (snd e) < now) (files (db s)) = []
          \<longrightarrow> cleanup_expired_files s now undeletable = s)"
proof (intro conjI allI impI)
  assume c: "counters_consistent (db s)"
  then have "distinct (map fst (files (db s)))" by (simp add: counters_consistent_def)
  from cleanup_expired_files_files [OF this, of now undeletable]
  show "files (db (cleanup_expired_files s now undeletable))
        = filter (\<lambda>e. \<not> expires_at (snd e) < now) (files (db s))"
    by (simp add: is_expired_def)
  fix v
  from cleanup_expired_files_counter [OF c, of now undeletable v]
  show "dict_get (stats (db (cleanup_expired_files s now undeletable))) v 0
        = dict_get (stats (db s)) v 0
          - int (length (filter (\<lambda>e. expires_at (snd e) < now \<and> storage_path (snd e) = v)
                           (files (db s))))"
    by (simp add: is_expired_def)
next
  assume "filter (\<lambda>e. expires_at (snd e) < now) (files (db s)) = []"
  then have "get_expired_files (db s) now = []"
    by (simp add: get_expired_files_def is_expired_def [abs_def])
  then show "cleanup_expired_files s now undeletable = s" by (rule cleanup_nothing_expired)
qed

text \<open>
  Of the two records of \<open>two_files\<close> one expires at 1000 and one at 5000: a pass at 2000
  reclaims the first, a pass at 500 reclaims nothing.
\<close>

theorem cleanup_expired_files_reclaims_past_records_witness:
  "counters_consistent (db two_files)
   \<and> files (db (cleanup_expired_files two_files 2000 {})) = [(''b'', other_record)]
   \<and> dict_get (stats (db (cleanup_expired_files two_files 2000 {}))) ''/storage'' 0 = 0
   \<and> dict_get (stats (db (cleanup_expired_files two_files 2000 {}))) ''/storage2'' 0 = 1
   \<and> cleanup_expired_files two_files 500 {} = two_files"
proof -
  have c: "counters_consistent (db two_files)"
    by (simp add: counters_consistent_def two_files_def live_count_def dict_get_def
        stored_record_def other_record_def)
  note at_2000 = cleanup_expired_files_reclaims_past_records [OF c, of 2000 "{}"]
  note at_500 = cleanup_expired_files_reclaims_past_records [OF c, of 500 "{}"]
  have "files (db (cleanup_expired_files two_files 2000 {})) = [(''b'', other_record)]"
    using at_2000 by (simp add: two_files_def stored_record_def other_record_def)
  moreover have "dict_get (stats (db (cleanup_expired_files two_files 2000 {}))) ''/storage'' 0 = 0"
    using at_2000 [THEN conjunct2, THEN conjunct1, THEN spec, of "''/storage''"]
    by (simp add: two_files_def stored_record_def other_record_def dict_get_def)
  moreover have "dict_get (stats (db (cleanup_expired_files two_files 2000 {}))) ''/storage2'' 0 = 1"
    using at_2000 [THEN conjunct2, THEN conjunct1, THEN spec, of "''/storage2''"]
    by (simp add: two_files_def stored_record_def other_record_def dict_get_def)
  moreover have "cleanup_expired_files two_files 500 {} = two_files"
    using at_500 by (simp add: two_files_def stored_record_def other_record_def)
  ultimately show ?thesis using c by simp
qed

section \<open>Failing removals\<close>

text \<open>
  Claim C10. Whatever error the removal of the backing file raises, \<^verbatim>\<open>delete_file\<close>
  answers "deleted", drops the record and (in a state whose counters are consistent) takes
  one off the counter, and leaves the volume as it was. A pass of the reaper over an expired
  record whose file cannot be removed does the same: the record is gone, the counters are
  lowered as for any other pass, and the file is still on the volume.
\<close>

theorem removal_errors_are_swallowed:
  "(get_file (db s) fid = Some data
      \<and> os_remove undeletable (disk s) (os_path_join (storage_path data) fid) = Inl err
    \<longrightarrow> fst (delete_file s fid undeletable) = Inr (Deleted fid)
        \<and> get_file (db (snd (delete_file s fid undeletable))) fid = None
        \<and> (counters_consistent (db s) \<longrightarrow>
             dict_get (stats (db (snd (delete_file s fid undeletable)))) (storage_path data) 0
               = dict_get (stats (db s)) (storage_path data) 0 - 1)
        \<and> disk (snd (delete_file s fid undeletable)) = disk s)
   \<and> (get_file (db s) fid = Some data \<and> expires_at data < now
      \<and> os_path_join (storage_path data) fid \<in> undeletable
    \<longrightarrow> get_file (db (cleanup_expired_files s now undeletable)) fid = None
        \<and> (counters_consistent (db s) \<longrightarrow>
             (\<forall>v. dict_get (stats (db (cleanup_expired_files s now undeletable))) v 0
                   = dict_get (stats (db s)) v 0
                     - int (length (filter (\<lambda>e. expires_at (snd e) < now
                                                  \<and> storage_path (snd e) = v) (files (db s))))))
        \<and> map_of (disk (cleanup_expired_files s now undeletable))
             (os_path_join (storage_path data) fid)
           = map_of (disk s) (os_path_join (storage_path data) fid))"
proof (intro conjI impI allI; (elim conjE)?)
  assume "get_file (db s) fid = Some data"
    and "os_remove undeletable (disk s) (os_path_join (storage_path data) fid) = Inl err"
  then show "fst (delete_file s fid undeletable) = Inr (Deleted fid)"
    and "get_file (db (snd (delete_file s fid undeletable))) fid = None"
    and "disk (snd (delete_file s fid undeletable)) = disk s"
    by (simp_all add: delete_file_def get_file_delete remove_ignoring_errors_def)
next
  assume "get_file (db s) fid = Some data" and "counters_consistent (db s)"
  then show "dict_get (stats (db (snd (delete_file s fid undeletable)))) (storage_path data) 0
             = dict_get (stats (db s)) (storage_path data) 0 - 1"
    by (simp add: delete_file_def db_delete_file_counter)
next
  assume "get_file (db s) fid = Some data" and "expires_at data < now"
  then show "get_file (db (cleanup_expired_files s now undeletable)) fid = None"
    by (rule cleanup_removes_expired)
next
  fix v assume "counters_consistent (db s)"
  from cleanup_expired_files_counter [OF this, of now undeletable v]
  show "dict_get (stats (db (cleanup_expired_files s now undeletable))) v 0
        = dict_get (stats (db s)) v 0
          - int (length (filter (\<lambda>e. expires_at (snd e) < now \<and> storage_path (snd e) = v)
                           (files (db s))))"
    by (simp add: is_expired_def)
next
  assume "os_path_join (storage_path data) fid \<in> undeletable"
  then show "map_of (disk (cleanup_expired_files s now undeletable))
               (os_path_join (storage_path data) fid)
             = map_of (disk s) (os_path_join (storage_path data) fid)"
    by (simp add: cleanup_expired_files_def cleanup_loop_keeps_undeletable)
qed

text \<open>
  The file of \<open>one_file\<close> cannot be removed: after the delete, and after a pass of the
  reaper at 2000, the store is empty and the three bytes are still on the volume.
\<close>

theorem removal_errors_are_swallowed_witness:
  "get_file (db one_file) ''a'' = Some stored_record
   \<and> os_remove {''/storage/a''} (disk one_file) (os_path_join (storage_path stored_record) ''a'')
       = Inl PermissionError
   \<and> expires_at stored_record < 2000
   \<and> os_path_join (storage_path stored_record) ''a'' \<in> {''/storage/a''}
   \<and> counters_consistent (db one_file)
   \<and> delete_file one_file ''a'' {''/storage/a''} = (Inr (Deleted ''a''), orphaned_bytes)
   \<and> cleanup_expired_files one_file 2000 {''/storage/a''} = orphaned_bytes
   \<and> get_file (db orphaned_bytes) ''a'' = None
   \<and> map_of (disk orphaned_bytes) ''/storage/a'' = Some [1, 2, 3]"
proof -
  have some: "get_file (db one_file) ''a'' = Some stored_record"
    by (simp add: one_file_def get_file_def)
  have rm: "os_remove {''/storage/a''} (disk one_file)
              (os_path_join (storage_path stored_record) ''a'') = Inl PermissionError"
    by (simp add: os_remove_def os_path_join_def one_file_def stored_record_def)
  have ex: "expires_at stored_record < 2000"
    and und: "os_path_join (storage_path stored_record) ''a'' \<in> {''/storage/a''}"
    by (simp_all add: stored_record_def os_path_join_def)
  have c: "counters_consistent (db one_file)"
    by (simp add: counters_consistent_def one_file_def live_count_def dict_get_def
        stored_record_def)
  have del: "delete_file one_file ''a'' {''/storage/a''} = (Inr (Deleted ''a''), orphaned_bytes)"
    by (simp add: delete_file_def get_file_def db_delete_file_def remove_ignoring_errors_def
        os_remove_def os_path_join_def one_file_def stored_record_def orphaned_bytes_def
        empty_db_def)
  have reap: "cleanup_expired_files one_file 2000 {''/storage/a''} = orphaned_bytes"
    by (simp add: cleanup_expired_files_def get_expired_files_def is_expired_def reclaim_def
        get_file_def db_delete_file_def remove_ignoring_errors_def os_remove_def
        os_path_join_def one_file_def stored_record_def orphaned_bytes_def empty_db_def)
  show ?thesis
    using some rm ex und c del reap
      removal_errors_are_swallowed
        [of one_file "''a''" stored_record "{''/storage/a''}" PermissionError 2000]
    by (simp add: orphaned_bytes_def)
qed

section \<open>Facts about the examples\<close>

lemma save_chunks_small: "save_chunks failing 0 0 [] [1, 2] = (if failing = Some 0 then WriteFailed [] else Saved 2 [1, 2])"
  by (simp add: save_chunks.simps [of _ _ _ _ "[1, 2]"] save_chunks.simps [of _ _ _ _ "[]"]
      CHUNK_SIZE_def MAX_FILE_SIZE_def)

lemma upload_small:
  "select_storage_path (db s) = Inr v \<Longrightarrow>
   upload_file s small_upload 5 (env_for u) =
     (Inr (response_for u v),
      \<lparr>db = add_file (db s) u (record_for u v),
       disk = AList.update (os_path_join v u) [1, 2] (disk s)\<rparr>)"
  by (simp add: upload_file_def declared_too_large_def small_upload_def env_for_def
      add_seconds_def DATETIME_MAX_def save_chunks_small record_for_def response_for_def
      MAX_FILE_SIZE_def)

lemma select_examples:
  "select_storage_path (db no_files) = Inr ''/storage''"
  "select_storage_path (db uploaded_b) = Inr ''/storage2''"
  "select_storage_path (db uploaded_bc) = Inr ''/storage3''"
  by (simp_all add: select_storage_path_def py_min_def counts_def get_storage_stats_def
      STORAGE_PATHS_def dict_get_def no_files_def empty_db_def uploaded_b_def uploaded_bc_def)

lemma upload_examples:
  "upload_file no_files small_upload 5 (env_for ''b'') = (Inr (response_for ''b'' ''/storage''), uploaded_b)"
  "upload_file uploaded_b small_upload 5 (env_for ''c'') = (Inr (response_for ''c'' ''/storage2''), uploaded_bc)"
  "upload_file uploaded_bc small_upload 5 (env_for ''d'') = (Inr (response_for ''d'' ''/storage3''), uploaded_bcd)"
    apply (simp add: upload_small [OF select_examples(1)])
    apply (simp add: no_files_def empty_db_def uploaded_b_def add_file_def record_for_def
      dict_get_def os_path_join_def)
   apply (simp add: upload_small [OF select_examples(2)])
   apply (simp add: uploaded_b_def uploaded_bc_def add_file_def record_for_def
      dict_get_def os_path_join_def)
  apply (simp add: upload_small [OF select_examples(3)])
  apply (simp add: uploaded_bc_def uploaded_bcd_def add_file_def record_for_def
      dict_get_def os_path_join_def)
  done

lemma upload_file_consistent:
  assumes "counters_consistent (db s)" and "get_file (db s) (uuid4 env) = None"
  shows "counters_consistent (db (snd (upload_file s file expires_in env)))"
proof (cases "upload_file s file expires_in env")
  case (Pair res s')
  show ?thesis
  proof (cases res)
    case (Inl e)
    with Pair have "fst (upload_file s file expires_in env) = Inl e" by simp
    then have "db (snd (upload_file s file expires_in env)) = db s"
      by (rule upload_file_error_db)
    with assms(1) show ?thesis by simp
  next
    case (Inr r)
    with Pair have "upload_file s file expires_in env = (Inr r, s')" by simp
    then show ?thesis
      using assms Pair by (elim upload_file_success) (simp add: add_file_consistent)
  qed
qed

lemma delete_file_consistent:
  "counters_consistent (db s) \<Longrightarrow> counters_consistent (db (snd (delete_file s fid undeletable)))"
  by (simp add: delete_file_def db_delete_file_consistent split: option.splits)

lemma apply_operation_consistent:
  "counters_consistent (db s) \<Longrightarrow> fresh_handle s x \<Longrightarrow>
   counters_consistent (db (apply_operation s x))"
  by (cases x)
     (simp_all add: upload_file_consistent delete_file_consistent cleanup_expired_files_def
       cleanup_loop_consistent)

lemma run_consistent:
  "counters_consistent (db s) \<Longrightarrow> fresh_handles s xs \<Longrightarrow> counters_consistent (db (run s xs))"
  by (induction xs arbitrary: s) (simp_all add: apply_operation_consistent)

lemma empty_db_consistent: "counters_consistent empty_db"
  by (simp add: counters_consistent_def empty_db_def)

section \<open>The counters\<close>

text \<open>
  Claim C3. Start from a store whose counters are consistent with its records (the empty
  store is one) and run any sequence of creates, deletes and reaper passes in which every
  create is given a handle that no stored record has. Afterwards, for every volume, the
  counter read with default zero is the number of records whose volume it is.
\<close>

theorem counters_equal_live_records:
  "counters_consistent (db s) \<Longrightarrow> fresh_handles s xs \<Longrightarrow>
     dict_get (stats (db (run s xs))) v 0
       = int (length (filter (\<lambda>e. storage_path (snd e) = v) (files (db (run s xs)))))"
  using run_consistent [of s xs] by (simp add: counters_consistent_iff live_count_def)

text \<open>
  Two creates, a delete of the first object and a reaper pass after the second has expired,
  from the empty store.
\<close>

theorem counters_equal_live_records_witness:
  "counters_consistent (db no_files)
   \<and> fresh_handles no_files
       [Create small_upload 5 (env_for ''b''), Create small_upload 5 (env_for ''c''),
        Delete ''b'' {}, Reap 6000000 {}]
   \<and> dict_get (stats (db (run no_files
       [Create small_upload 5 (env_for ''b''), Create small_upload 5 (env_for ''c''),
        Delete ''b'' {}, Reap 6000000 {}]))) ''/storage2'' 0
     = int (length (filter (\<lambda>e. storage_path (snd e) = ''/storage2'') (files (db (run no_files
       [Create small_upload 5 (env_for ''b''), Create small_upload 5 (env_for ''c''),
        Delete ''b'' {}, Reap 6000000 {}])))))"
proof -
  have c: "counters_consistent (db no_files)"
    by (simp add: no_files_def empty_db_consistent)
  have f: "fresh_handles no_files
       [Create small_upload 5 (env_for ''b''), Create small_upload 5 (env_for ''c''),
        Delete ''b'' {}, Reap 6000000 {}]"
    by (simp add: upload_examples)
       (simp add: env_for_def get_file_def no_files_def empty_db_def uploaded_b_def)
  show ?thesis
    using c f counters_equal_live_records [OF c f, of "''/storage2''"] by simp
qed

section \<open>Create\<close>

text \<open>
  Claim C6 as stated fails: the handler reads the clock twice, at line 121 for \<open>expires_at\<close>
  and at line 150, after the bytes are written, for \<open>uploaded_at\<close>. With the readings 7 and
  9 and a ttl of 5 seconds the record has \<open>expires_at = 5000007\<close> and \<open>uploaded_at = 9\<close>.
\<close>

theorem upload_file_expiry_not_from_uploaded_at:
  "upload_file no_files small_upload 5 (env_for ''b'')
     = (Inr (response_for ''b'' ''/storage''), uploaded_b)
   \<and> get_file (db uploaded_b) ''b'' = Some (record_for ''b'' ''/storage'')
   \<and> expires_at (record_for ''b'' ''/storage'')
       \<noteq> uploaded_at (record_for ''b'' ''/storage'') + 5 * 1000000"
  by (simp add: upload_examples get_file_def uploaded_b_def record_for_def)

text \<open>
  Claim C6, amended. For every successful create, the persisted record's \<open>expires_at\<close> is
  the clock reading taken before the bytes are streamed plus the requested ttl (in
  microseconds, \<open>expires_in * 1000000\<close>), and it is the \<open>expires_at\<close> of the response; the
  record's \<open>uploaded_at\<close> is the later reading, so the two differ by the ttl exactly when
  the two readings are equal.
\<close>

theorem upload_file_expiry_from_first_clock_reading:
  "upload_file s file expires_in env = (Inr r, s') \<Longrightarrow>
     \<exists>data. get_file (db s') (resp_id r) = Some data
       \<and> expires_at data = utcnow_before env + expires_in * 1000000
       \<and> resp_expires_at r = expires_at data
       \<and> uploaded_at data = utcnow_after env
       \<and> (expires_at data = uploaded_at data + expires_in * 1000000)
           = (utcnow_before env = utcnow_after env)"
  by (erule upload_file_success)
     (auto simp: add_file_def get_file_def update_conv' add_seconds_def split: if_splits)

text \<open>The same create, read the other way.\<close>

theorem upload_file_expiry_from_first_clock_reading_witness:
  "upload_file no_files small_upload 5 (env_for ''b'')
     = (Inr (response_for ''b'' ''/storage''), uploaded_b)
   \<and> get_file (db uploaded_b) ''b'' = Some (record_for ''b'' ''/storage'')
   \<and> expires_at (record_for ''b'' ''/storage'') = utcnow_before (env_for ''b'') + 5 * 1000000
   \<and> uploaded_at (record_for ''b'' ''/storage'') = utcnow_after (env_for ''b'')"
  using upload_examples(1) upload_file_expiry_from_first_clock_reading [OF upload_examples(1)]
  by (simp add: get_file_def uploaded_b_def response_for_def)

text \<open>
  Claim C5 describes what the code does not do: the handler of line 136 answers 500 and
  returns, without removing the file. Here the upload has two chunks and the second
  \<^verbatim>\<open>f.write\<close> raises: no record is added, and the first chunk stays on the volume.
\<close>

theorem upload_file_write_error_leaves_partial_file:
  "upload_file no_files two_chunk_upload 5 env_second_write_fails
     = (Inl StorageError, \<lparr>db = empty_db, disk = [(''/storage/b'', replicate 8192 0)]\<rparr>)"
proof -
  have "save_chunks (Some 1) 0 0 [] (replicate 8193 0) = WriteFailed (replicate 8192 0)"
    by (simp add: save_chunks.simps [of _ 0] save_chunks.simps [of _ "Suc 0"]
        CHUNK_SIZE_def MAX_FILE_SIZE_def)
  then have "upload_file no_files two_chunk_upload 5 env_second_write_fails
     = (Inl StorageError, no_files\<lparr>disk := AList.update ''/storage/b'' (replicate 8192 0) (disk no_files)\<rparr>)"
    by (simp add: upload_file_def declared_too_large_def two_chunk_upload_def
        env_second_write_fails_def select_examples add_seconds_def DATETIME_MAX_def
        os_path_join_def)
  then show ?thesis by (simp add: no_files_def)
qed

text \<open>
  Claim C1 as stated fails when the removal of the partial file raises: IOError is OSError,
  so the handler of line 136 catches the error of \<^verbatim>\<open>os.remove\<close> (line 130), the answer is
  500 instead of 413, and the partial file stays.
\<close>

theorem upload_file_too_large_remove_error:
  "MAX_FILE_SIZE < length (content huge_upload)
   \<and> fst (upload_file no_files huge_upload 5 env_remove_fails) = Inl StorageError
   \<and> os_path_exists (disk (snd (upload_file no_files huge_upload 5 env_remove_fails)))
        ''/storage/b''"
proof -
  have big: "MAX_FILE_SIZE < length (content huge_upload)"
    by (simp add: huge_upload_def MAX_FILE_SIZE_def)
  then obtain n where
    "save_chunks None 0 0 [] (content huge_upload) = Oversize ([] @ take n (content huge_upload))"
    using save_chunks_oversize [of 0 "content huge_upload" 0 "[]"] by auto
  then have "fst (upload_file no_files huge_upload 5 env_remove_fails) = Inl StorageError
     \<and> os_path_exists (disk (snd (upload_file no_files huge_upload 5 env_remove_fails)))
          ''/storage/b''"
    by (simp add: upload_file_def declared_too_large_def env_remove_fails_def select_examples
        add_seconds_def DATETIME_MAX_def os_path_join_def os_remove_def os_path_exists_def
        update_conv' huge_upload_def)
  with big show ?thesis by simp
qed

text \<open>
  Claim C1, amended. When more bytes are streamed than the maximum, the create fails and
  the database is left as it was. If the declared size already exceeds the maximum the
  answer is 413 and nothing is touched. Otherwise, provided the expiry time is a valid
  datetime, \<^verbatim>\<open>open\<close> and the writes raise no error and the partial file can be removed, the
  answer is 413 and no file is left at the chosen path.
\<close>

theorem upload_file_too_large:
  "MAX_FILE_SIZE < length (content file) \<Longrightarrow>
     (\<exists>e. fst (upload_file s file expires_in env) = Inl e)
     \<and> db (snd (upload_file s file expires_in env)) = db s
     \<and> (declared_too_large file \<longrightarrow> upload_file s file expires_in env = (Inl TooLarge, s))
     \<and> (\<not> declared_too_large file
          \<and> select_storage_path (db s) = Inr spath
          \<and> add_seconds (utcnow_before env) expires_in \<noteq> None
          \<and> \<not> open_fails env \<and> write_fails_at env = None
          \<and> os_path_join spath (uuid4 env) \<notin> remove_fails env
        \<longrightarrow> fst (upload_file s file expires_in env) = Inl TooLarge
            \<and> \<not> os_path_exists (disk (snd (upload_file s file expires_in env)))
                  (os_path_join spath (uuid4 env)))"
proof (intro conjI impI; (elim conjE)?)
  assume big: "MAX_FILE_SIZE < length (content file)"
  have ns: "save_chunks (write_fails_at env) 0 0 [] (content file) \<noteq> Saved a b" for a b
    using big by (intro save_chunks_not_saved) simp_all
  then show err: "\<exists>e. fst (upload_file s file expires_in env) = Inl e"
    by (auto simp: upload_file_def split: sum.splits option.splits save_result.splits)
  then show "db (snd (upload_file s file expires_in env)) = db s"
    by (auto simp: upload_file_error_db)
next
  assume "declared_too_large file"
  then show "upload_file s file expires_in env = (Inl TooLarge, s)"
    by (simp add: upload_file_def)
next
  assume big: "MAX_FILE_SIZE < length (content file)"
    and h: "\<not> declared_too_large file" "select_storage_path (db s) = Inr spath"
      "add_seconds (utcnow_before env) expires_in \<noteq> None" "\<not> open_fails env"
      "write_fails_at env = None" "os_path_join spath (uuid4 env) \<notin> remove_fails env"
  from big obtain n where
    "save_chunks None 0 0 [] (content file) = Oversize ([] @ take n (content file))"
    using save_chunks_oversize [of 0 "content file" 0 "[]"] by auto
  with h show "fst (upload_file s file expires_in env) = Inl TooLarge"
    and "\<not> os_path_exists (disk (snd (upload_file s file expires_in env)))
            (os_path_join spath (uuid4 env))"
    by (auto simp: upload_file_def os_remove_def os_path_exists_def update_conv' delete_conv')
qed

text \<open>
  Five gibibytes and one byte, streamed with no declared size and with a declared one.
\<close>

theorem upload_file_too_large_witness:
  "MAX_FILE_SIZE < length (content huge_upload)
   \<and> \<not> declared_too_large huge_upload
   \<and> select_storage_path (db no_files) = Inr ''/storage''
   \<and> add_seconds (utcnow_before (env_for ''b'')) 5 \<noteq> None
   \<and> \<not> open_fails (env_for ''b'') \<and> write_fails_at (env_for ''b'') = None
   \<and> os_path_join ''/storage'' (uuid4 (env_for ''b'')) \<notin> remove_fails (env_for ''b'')
   \<and> fst (upload_file no_files huge_upload 5 (env_for ''b'')) = Inl TooLarge
   \<and> db (snd (upload_file no_files huge_upload 5 (env_for ''b''))) = db no_files
   \<and> \<not> os_path_exists (disk (snd (upload_file no_files huge_upload 5 (env_for ''b''))))
         ''/storage/b''
   \<and> MAX_FILE_SIZE < length (content huge_declared_upload)
   \<and> declared_too_large huge_declared_upload
   \<and> upload_file no_files huge_declared_upload 5 (env_for ''b'') = (Inl TooLarge, no_files)"
proof -
  have big: "MAX_FILE_SIZE < length (content huge_upload)"
    and big': "MAX_FILE_SIZE < length (content huge_declared_upload)"
    by (simp_all add: huge_upload_def huge_declared_upload_def MAX_FILE_SIZE_def)
  have hyps: "\<not> declared_too_large huge_upload"
    "add_seconds (utcnow_before (env_for ''b'')) 5 \<noteq> None"
    "\<not> open_fails (env_for ''b'')" "write_fails_at (env_for ''b'') = None"
    "os_path_join ''/storage'' (uuid4 (env_for ''b'')) \<notin> remove_fails (env_for ''b'')"
    "declared_too_large huge_declared_upload"
    "os_path_join ''/storage'' (uuid4 (env_for ''b'')) = ''/storage/b''"
    by (simp_all add: declared_too_large_def huge_upload_def huge_declared_upload_def
        env_for_def add_seconds_def DATETIME_MAX_def os_path_join_def MAX_FILE_SIZE_def)
  show ?thesis
    using big big' hyps select_examples(1)
      upload_file_too_large [OF big, of no_files 5 "env_for ''b''" "''/storage''"]
      upload_file_too_large [OF big', of no_files 5 "env_for ''b''" "''/storage''"]
    by simp
qed

section \<open>Facts about placement\<close>

lemma min_from_first_least:
  "\<exists>pre post. x # xs = pre @ min_from key x xs # post
     \<and> (\<forall>y\<in>set pre. key (min_from key x xs) < key y)
     \<and> (\<forall>y\<in>set post. key (min_from key x xs) \<le> key y)"
proof (induction xs arbitrary: x)
  case Nil
  show ?case by (intro exI [of _ "[]"]) simp
next
  case (Cons y ys)
  define b where "b = (if key y < key x then y else x)"
  define m where "m = min_from key b ys"
  from Cons.IH [of b] obtain pre post where
    split: "b # ys = pre @ m # post"
    and before: "\<forall>z\<in>set pre. key m < key z"
    and after: "\<forall>z\<in>set post. key m \<le> key z"
    unfolding m_def by blast
  have m: "min_from key x (y # ys) = m" by (simp add: m_def b_def)
  have le_b: "key m \<le> key b"
  proof (cases pre)
    case Nil
    with split show ?thesis by simp
  next
    case (Cons p ps)
    with split have "b \<in> set pre" by simp
    with before show ?thesis by force
  qed
  show ?case
  proof (cases "key y < key x")
    case True
    then have "b = y" by (simp add: b_def)
    with split have "x # y # ys = (x # pre) @ m # post" by simp
    moreover from True le_b \<open>b = y\<close> have "key m < key x" by simp
    ultimately show ?thesis
      unfolding m using before after by (intro exI [of _ "x # pre"] exI [of _ post]) simp
  next
    case False
    then have bx: "b = x" by (simp add: b_def)
    show ?thesis
    proof (cases pre)
      case Nil
      with split bx have mx: "m = x" and "post = ys" by simp_all
      then have "x # y # ys = [] @ m # (y # post)" by simp
      moreover from mx False have "key m \<le> key y" by simp
      ultimately show ?thesis
        unfolding m using after by (intro exI [of _ "[]"] exI [of _ "y # post"]) simp
    next
      case (Cons p ps)
      with split bx have p: "p = x" and ys: "ys = ps @ m # post" by simp_all
      then have "x # y # ys = (x # y # ps) @ m # post" by simp
      moreover from before Cons p have mx: "key m < key x" by simp
      moreover from mx False have "key m < key y" by simp
      moreover from before Cons have "\<forall>z\<in>set ps. key m < key z" by simp
      ultimately show ?thesis
        unfolding m using after by (intro exI [of _ "x # y # ps"] exI [of _ post]) simp
    qed
  qed
qed

lemma py_min_counts:
  assumes "ps \<noteq> []"
  shows "\<exists>pre p post. ps = pre @ p # post
     \<and> py_min snd (map (\<lambda>q. (q, c q)) ps) = Inr (p, c p)
     \<and> (\<forall>q\<in>set pre. c p < c q) \<and> (\<forall>q\<in>set post. c p \<le> c q)"
proof -
  let ?f = "\<lambda>q. (q, c q)"
  from assms obtain p0 rest where ps: "ps = p0 # rest" by (cases ps) auto
  let ?m = "min_from snd (?f p0) (map ?f rest)"
  from min_from_first_least [of "?f p0" "map ?f rest" snd] obtain pre' post' where
    split: "?f p0 # map ?f rest = pre' @ ?m # post'"
    and before: "\<forall>y\<in>set pre'. snd ?m < snd y"
    and after: "\<forall>y\<in>set post'. snd ?m \<le> snd y"
    by blast
  from split ps have "map ?f ps = pre' @ ?m # post'" by simp
  then obtain pre p post where
    parts: "ps = pre @ p # post" "pre' = map ?f pre" "?m = ?f p" "post' = map ?f post"
    by (auto simp: map_eq_append_conv map_eq_Cons_conv)
  have "py_min snd (map ?f ps) = Inr (p, c p)"
    using parts(3) by (simp add: ps py_min_def)
  moreover have "\<forall>q\<in>set pre. c p < c q"
    using before parts(2,3) by simp
  moreover have "\<forall>q\<in>set post. c p \<le> c q"
    using after parts(3,4) by simp
  ultimately show ?thesis using parts(1) by blast
qed

lemma select_storage_path_three:
  "select_storage_path d =
     Inr (if dict_get (stats d) ''/storage2'' 0 < dict_get (stats d) ''/storage'' 0
          then (if dict_get (stats d) ''/storage3'' 0 < dict_get (stats d) ''/storage2'' 0
                then ''/storage3'' else ''/storage2'')
          else (if dict_get (stats d) ''/storage3'' 0 < dict_get (stats d) ''/storage'' 0
                then ''/storage3'' else ''/storage''))"
  by (simp add: select_storage_path_def py_min_def counts_def get_storage_stats_def
      STORAGE_PATHS_def)

lemma upload_file_counter:
  assumes "upload_file s file expires_in env = (Inr r, s')"
  shows "select_storage_path (db s) = Inr (storage_location r)"
    and "dict_get (stats (db s')) p 0
         = dict_get (stats (db s)) p 0 + (if p = storage_location r then 1 else 0)"
  using assms by (auto elim!: upload_file_success simp: add_file_def dict_get_update)

section \<open>Placement\<close>

text \<open>
  Claim C7. \<^verbatim>\<open>select_storage_path\<close> returns a configured volume whose counter (zero when
  absent) is strictly smaller than that of every volume declared before it and at most
  that of every volume declared after it: the least loaded, the first declared among equals.
  Consequently, from a store whose three counters are zero, three successive successful
  creates land on the three volumes in the order of declaration, one each: the counters
  are then all one, and so are the numbers of records when the store was consistent and
  the handles were fresh.
\<close>

theorem select_storage_path_least_loaded:
  "(\<exists>pre p post. STORAGE_PATHS = pre @ p # post \<and> select_storage_path d = Inr p
      \<and> (\<forall>q\<in>set pre. dict_get (stats d) p 0 < dict_get (stats d) q 0)
      \<and> (\<forall>q\<in>set post. dict_get (stats d) p 0 \<le> dict_get (stats d) q 0))
   \<and> ((\<forall>p\<in>set STORAGE_PATHS. dict_get (stats (db s0)) p 0 = 0)
        \<and> upload_file s0 f1 t1 e1 = (Inr r1, s1)
        \<and> upload_file s1 f2 t2 e2 = (Inr r2, s2)
        \<and> upload_file s2 f3 t3 e3 = (Inr r3, s3)
      \<longrightarrow> [storage_location r1, storage_location r2, storage_location r3] = STORAGE_PATHS
          \<and> (\<forall>p\<in>set STORAGE_PATHS. dict_get (stats (db s3)) p 0 = 1)
          \<and> (counters_consistent (db s0) \<and> get_file (db s0) (uuid4 e1) = None
               \<and> get_file (db s1) (uuid4 e2) = None \<and> get_file (db s2) (uuid4 e3) = None
              \<longrightarrow> (\<forall>p\<in>set STORAGE_PATHS. live_count (db s3) p = 1)))"
proof (intro conjI impI; (elim conjE)?)
  have "STORAGE_PATHS \<noteq> []" by (simp add: STORAGE_PATHS_def)
  from py_min_counts [OF this, of "\<lambda>q. dict_get (stats d) q 0"]
  show "\<exists>pre p post. STORAGE_PATHS = pre @ p # post \<and> select_storage_path d = Inr p
      \<and> (\<forall>q\<in>set pre. dict_get (stats d) p 0 < dict_get (stats d) q 0)
      \<and> (\<forall>q\<in>set post. dict_get (stats d) p 0 \<le> dict_get (stats d) q 0)"
    by (fastforce simp: select_storage_path_def counts_def get_storage_stats_def)
next
  assume zero: "\<forall>p\<in>set STORAGE_PATHS. dict_get (stats (db s0)) p 0 = 0"
    and u1: "upload_file s0 f1 t1 e1 = (Inr r1, s1)"
    and u2: "upload_file s1 f2 t2 e2 = (Inr r2, s2)"
    and u3: "upload_file s2 f3 t3 e3 = (Inr r3, s3)"
  note c1 = upload_file_counter [OF u1] and c2 = upload_file_counter [OF u2]
    and c3 = upload_file_counter [OF u3]
  from zero have z: "dict_get (stats (db s0)) ''/storage'' 0 = 0"
    "dict_get (stats (db s0)) ''/storage2'' 0 = 0" "dict_get (stats (db s0)) ''/storage3'' 0 = 0"
    by (simp_all add: STORAGE_PATHS_def)
  have l1: "storage_location r1 = ''/storage''"
    using c1(1) z by (simp add: select_storage_path_three)
  have l2: "storage_location r2 = ''/storage2''"
    using c2(1) z l1 by (simp add: select_storage_path_three c1(2))
  have l3: "storage_location r3 = ''/storage3''"
    using c3(1) z l1 l2 by (simp add: select_storage_path_three c1(2) c2(2))
  show locs: "[storage_location r1, storage_location r2, storage_location r3] = STORAGE_PATHS"
    by (simp add: l1 l2 l3 STORAGE_PATHS_def)
  show ones: "\<forall>p\<in>set STORAGE_PATHS. dict_get (stats (db s3)) p 0 = 1"
    using z l1 l2 l3 by (simp add: STORAGE_PATHS_def c1(2) c2(2) c3(2))
  assume cons: "counters_consistent (db s0)"
    and fresh: "get_file (db s0) (uuid4 e1) = None" "get_file (db s1) (uuid4 e2) = None"
      "get_file (db s2) (uuid4 e3) = None"
  from upload_file_consistent [OF cons fresh(1), of f1 t1] u1
  have "counters_consistent (db s1)" by simp
  from upload_file_consistent [OF this fresh(2), of f2 t2] u2
  have "counters_consistent (db s2)" by simp
  from upload_file_consistent [OF this fresh(3), of f3 t3] u3
  have "counters_consistent (db s3)" by simp
  then have "int (live_count (db s3) p) = dict_get (stats (db s3)) p 0" for p
    by (simp add: counters_consistent_iff)
  with ones show "\<forall>p\<in>set STORAGE_PATHS. live_count (db s3) p = 1"
    by (metis int_ops(2) of_nat_eq_iff)
qed

text \<open>
  Three creates from the empty store; and in the store they leave after the first, where
  the first volume has one object, the second volume is chosen.
\<close>

theorem select_storage_path_least_loaded_witness:
  "STORAGE_PATHS = [''/storage''] @ ''/storage2'' # [''/storage3'']
   \<and> select_storage_path (db uploaded_b) = Inr ''/storage2''
   \<and> dict_get (stats (db uploaded_b)) ''/storage2'' 0 < dict_get (stats (db uploaded_b)) ''/storage'' 0
   \<and> dict_get (stats (db uploaded_b)) ''/storage2'' 0 \<le> dict_get (stats (db uploaded_b)) ''/storage3'' 0
   \<and> dict_get (stats (db no_files)) ''/storage'' 0 = 0
   \<and> dict_get (stats (db no_files)) ''/storage2'' 0 = 0
   \<and> dict_get (stats (db no_files)) ''/storage3'' 0 = 0
   \<and> upload_file no_files small_upload 5 (env_for ''b'')
        = (Inr (response_for ''b'' ''/storage''), uploaded_b)
   \<and> upload_file uploaded_b small_upload 5 (env_for ''c'')
        = (Inr (response_for ''c'' ''/storage2''), uploaded_bc)
   \<and> upload_file uploaded_bc small_upload 5 (env_for ''d'')
        = (Inr (response_for ''d'' ''/storage3''), uploaded_bcd)
   \<and> counters_consistent (db no_files)
   \<and> get_file (db no_files) (uuid4 (env_for ''b'')) = None
   \<and> get_file (db uploaded_b) (uuid4 (env_for ''c'')) = None
   \<and> get_file (db uploaded_bc) (uuid4 (env_for ''d'')) = None
   \<and> [storage_location (response_for ''b'' ''/storage''),
       storage_location (response_for ''c'' ''/storage2''),
       storage_location (response_for ''d'' ''/storage3'')] = STORAGE_PATHS
   \<and> dict_get (stats (db uploaded_bcd)) ''/storage'' 0 = 1
   \<and> dict_get (stats (db uploaded_bcd)) ''/storage2'' 0 = 1
   \<and> dict_get (stats (db uploaded_bcd)) ''/storage3'' 0 = 1
   \<and> live_count (db uploaded_bcd) ''/storage'' = 1
   \<and> live_count (db uploaded_bcd) ''/storage2'' = 1
   \<and> live_count (db uploaded_bcd) ''/storage3'' = 1"
proof -
  have zero: "\<forall>p\<in>set STORAGE_PATHS. dict_get (stats (db no_files)) p 0 = 0"
    by (simp add: STORAGE_PATHS_def no_files_def empty_db_def dict_get_def)
  have cons: "counters_consistent (db no_files)"
    by (simp add: no_files_def empty_db_consistent)
  have fresh: "get_file (db no_files) (uuid4 (env_for ''b'')) = None"
    "get_file (db uploaded_b) (uuid4 (env_for ''c'')) = None"
    "get_file (db uploaded_bc) (uuid4 (env_for ''d'')) = None"
    by (simp_all add: get_file_def env_for_def no_files_def empty_db_def uploaded_b_def
        uploaded_bc_def)
  have less: "dict_get (stats (db uploaded_b)) ''/storage2'' 0
      < dict_get (stats (db uploaded_b)) ''/storage'' 0"
    "dict_get (stats (db uploaded_b)) ''/storage2'' 0
      \<le> dict_get (stats (db uploaded_b)) ''/storage3'' 0"
    by (simp_all add: uploaded_b_def dict_get_def)
  show ?thesis
    using zero cons fresh less select_examples(2) upload_examples
      select_storage_path_least_loaded
        [of "db uploaded_b" no_files small_upload 5 "env_for ''b''"
          "response_for ''b'' ''/storage''" uploaded_b small_upload 5 "env_for ''c''"
          "response_for ''c'' ''/storage2''" uploaded_bc small_upload 5 "env_for ''d''"
          "response_for ''d'' ''/storage3''" uploaded_bcd]
    by (simp add: STORAGE_PATHS_def)
qed

end
